theory Spec2Isabelle
  imports Main "HOL-Library.Word" "HOL-Library.AList"
begin

section \<open>Values of the graph-ts runtime\<close>

text \<open>
  \<^verbatim>\<open>Bytes\<close> and \<^verbatim>\<open>Address\<close> are byte arrays; \<^verbatim>\<open>toHexString\<close> renders them as
  \<^verbatim>\<open>0x\<close> followed by two lower-case hexadecimal digits per byte.  \<^verbatim>\<open>BigInt\<close> is an
  unbounded signed integer, modelled by \<^typ>\<open>int\<close>; its \<^verbatim>\<open>toString\<close> is the decimal
  representation.
\<close>

type_synonym bytes = "8 word list"

definition hexDigit :: "nat \<Rightarrow> char" where
  "hexDigit n = ''0123456789abcdef'' ! n"

definition hexByte :: "8 word \<Rightarrow> string" where
  "hexByte b = [hexDigit (unat b div 16), hexDigit (unat b mod 16)]"

definition toHexString :: "bytes \<Rightarrow> string" where
  "toHexString bs = ''0x'' @ concat (map hexByte bs)"

fun natToString :: "nat \<Rightarrow> string" where
  "natToString n =
     (if n < 10 then [hexDigit n] else natToString (n div 10) @ [hexDigit (n mod 10)])"

declare natToString.simps [simp del]

definition bigIntToString :: "int \<Rightarrow> string" where
  "bigIntToString i = (if i < 0 then ''-'' @ natToString (nat (- i)) else natToString (nat i))"

section \<open>Entities\<close>

record Collection =
  id :: string
  name :: string
  standard :: string
  floorPrice :: int
  totalListings :: int
  listingIds :: "string list"

record Token =
  id :: string
  collection :: string
  name :: string
  floorPrice :: "int option"

record Listing =
  id :: string
  blockTimestamp :: int
  buyer :: string
  collection :: string
  collectionName :: string
  expires :: int
  nicePrice :: string
  pricePerItem :: int
  quantity :: int
  status :: string
  token :: string
  tokenName :: string
  totalPrice :: string
  transactionLink :: string
  user :: string

record User =
  id :: string

record UserToken =
  id :: string
  quantity :: int
  token :: string
  user :: string

text \<open>
  The entity store: one table per entity kind, \<^verbatim>\<open>load\<close> is application of the table,
  \<^verbatim>\<open>save\<close> writes the entity under its own \<^verbatim>\<open>id\<close>, \<^verbatim>\<open>store.remove\<close> clears a key.
\<close>

record store =
  collections :: "string \<rightharpoonup> Collection"
  tokens :: "string \<rightharpoonup> Token"
  listings :: "string \<rightharpoonup> Listing"
  users :: "string \<rightharpoonup> User"
  userTokens :: "string \<rightharpoonup> UserToken"

definition emptyStore :: store where
  "emptyStore = \<lparr>collections = Map.empty, tokens = Map.empty, listings = Map.empty,
                  users = Map.empty, userTokens = Map.empty\<rparr>"

definition saveCollection :: "Collection \<Rightarrow> store \<Rightarrow> store" where
  "saveCollection c s = s\<lparr>collections := (collections s)(Collection.id c \<mapsto> c)\<rparr>"

definition saveToken :: "Token \<Rightarrow> store \<Rightarrow> store" where
  "saveToken t s = s\<lparr>tokens := (tokens s)(Token.id t \<mapsto> t)\<rparr>"

definition saveListing :: "Listing \<Rightarrow> store \<Rightarrow> store" where
  "saveListing l s = s\<lparr>listings := (listings s)(Listing.id l \<mapsto> l)\<rparr>"

definition saveUserToken :: "UserToken \<Rightarrow> store \<Rightarrow> store" where
  "saveUserToken u s = s\<lparr>userTokens := (userTokens s)(UserToken.id u \<mapsto> u)\<rparr>"

definition removeListing :: "string \<Rightarrow> store \<Rightarrow> store" where
  "removeListing k s = s\<lparr>listings := (listings s)(k := None)\<rparr>"

definition removeUserToken :: "string \<Rightarrow> store \<Rightarrow> store" where
  "removeUserToken k s = s\<lparr>userTokens := (userTokens s)(k := None)\<rparr>"

section \<open>Helpers\<close>

text \<open>
  The file \<^verbatim>\<open>helpers.ts\<close>, which \<^verbatim>\<open>mapping.ts\<close> imports, is not among the sources; what the
  mapping needs of it is taken from the spec.  The constant \<^verbatim>\<open>EXPLORER\<close> is a parameter of
  \<^verbatim>\<open>handleItemSold\<close> below.
\<close>

text \<open>Modelled from the spec: the constant \<^verbatim>\<open>ZERO_BI\<close> of \<^verbatim>\<open>helpers.ts\<close>, the zero singleton.\<close>

definition ZERO_BI :: int where
  "ZERO_BI = 0"

text \<open>Modelled from the spec: the constant \<^verbatim>\<open>ONE_BI\<close> of \<^verbatim>\<open>helpers.ts\<close>, the one singleton.\<close>

definition ONE_BI :: int where
  "ONE_BI = 1"

text \<open>
  Modelled from the spec: \<^verbatim>\<open>getTokenId\<close> of \<^verbatim>\<open>helpers.ts\<close>, an order-sensitive concatenation
  of contract and token id into one string key.
\<close>

definition getTokenId :: "bytes \<Rightarrow> int \<Rightarrow> string" where
  "getTokenId tokenAddress tokenId = toHexString tokenAddress @ ''-'' @ bigIntToString tokenId"

text \<open>
  Modelled from the spec: \<^verbatim>\<open>getListingId\<close> of \<^verbatim>\<open>helpers.ts\<close>, an order-sensitive
  concatenation of seller, contract and token id into one string key.
\<close>

definition getListingId :: "bytes \<Rightarrow> bytes \<Rightarrow> int \<Rightarrow> string" where
  "getListingId seller tokenAddress tokenId =
     toHexString seller @ ''-'' @ toHexString tokenAddress @ ''-'' @ bigIntToString tokenId"

text \<open>
  Modelled from the spec: \<^verbatim>\<open>getOrCreateCollection\<close> of \<^verbatim>\<open>helpers.ts\<close>.  Like every accessor
  it loads the entity by key and, if it is absent, builds it with zero or empty defaults
  (zero floor price, zero count, empty listing index) and returns it without persisting
  it; it never returns null.
\<close>

definition getOrCreateCollection :: "store \<Rightarrow> string \<Rightarrow> Collection" where
  "getOrCreateCollection s k =
     (case collections s k of
        Some c \<Rightarrow> c
      | None \<Rightarrow> \<lparr>Collection.id = k, name = '''', standard = '''', floorPrice = ZERO_BI,
                  totalListings = ZERO_BI, listingIds = []\<rparr>)"

text \<open>
  Modelled from the spec: \<^verbatim>\<open>getOrCreateToken\<close> of \<^verbatim>\<open>helpers.ts\<close>; the default token refers
  to no collection and has no floor price yet (the mapping tests the token's floor price
  for null).
\<close>

definition getOrCreateToken :: "store \<Rightarrow> string \<Rightarrow> Token" where
  "getOrCreateToken s k =
     (case tokens s k of
        Some t \<Rightarrow> t
      | None \<Rightarrow> \<lparr>Token.id = k, collection = '''', name = '''', floorPrice = None\<rparr>)"

text \<open>
  Modelled from the spec: \<^verbatim>\<open>getOrCreateListing\<close> of \<^verbatim>\<open>helpers.ts\<close>; the default listing has
  zero price and quantity and no status.
\<close>

definition getOrCreateListing :: "store \<Rightarrow> string \<Rightarrow> Listing" where
  "getOrCreateListing s k =
     (case listings s k of
        Some l \<Rightarrow> l
      | None \<Rightarrow> \<lparr>Listing.id = k, blockTimestamp = ZERO_BI, buyer = '''', collection = '''',
                  collectionName = '''', expires = ZERO_BI, nicePrice = '''',
                  pricePerItem = ZERO_BI, quantity = ZERO_BI, status = '''', token = '''',
                  tokenName = '''', totalPrice = '''', transactionLink = '''', user = ''''\<rparr>)"

text \<open>Modelled from the spec: \<^verbatim>\<open>getOrCreateUser\<close> of \<^verbatim>\<open>helpers.ts\<close>.\<close>

definition getOrCreateUser :: "store \<Rightarrow> string \<Rightarrow> User" where
  "getOrCreateUser s k = (case users s k of Some u \<Rightarrow> u | None \<Rightarrow> \<lparr>User.id = k\<rparr>)"

text \<open>
  Modelled from the spec: \<^verbatim>\<open>getOrCreateUserToken\<close> of \<^verbatim>\<open>helpers.ts\<close>; the default UserToken
  has quantity zero.
\<close>

definition getOrCreateUserToken :: "store \<Rightarrow> string \<Rightarrow> UserToken" where
  "getOrCreateUserToken s k =
     (case userTokens s k of
        Some u \<Rightarrow> u
      | None \<Rightarrow> \<lparr>UserToken.id = k, quantity = ZERO_BI, token = '''', user = ''''\<rparr>)"

text \<open>
  Modelled from the spec: the accessors never return null, so the null test of the mapping
  on an entity obtained from an accessor is always false.  (The result of \<^verbatim>\<open>load\<close> is an
  \<open>option\<close>, and its null test is a case distinction.)
\<close>

definition isNull :: "'a \<Rightarrow> bool" where
  "isNull entity = False"

declare isNull_def [simp]

section \<open>Events\<close>

record ItemListed =
  seller :: bytes
  nftAddress :: bytes
  tokenId :: int
  quantity :: int
  pricePerItem :: int
  expirationTime :: int
  timestamp :: int

record ItemUpdated =
  seller :: bytes
  nftAddress :: bytes
  tokenId :: int
  quantity :: int
  pricePerItem :: int
  expirationTime :: int
  timestamp :: int

record ItemCanceled =
  seller :: bytes
  nftAddress :: bytes
  tokenId :: int

record ItemSold =
  seller :: bytes
  buyer :: bytes
  nftAddress :: bytes
  tokenId :: int
  quantity :: int
  pricePerItem :: int
  timestamp :: int
  logIndex :: int
  transactionHash :: bytes

section \<open>The mapping\<close>

subsection \<open>formatPrice\<close>

definition formatPrice :: "int \<Rightarrow> string" where
  "formatPrice number =
     (if number = 0 then ''0''
      else
        let input = bigIntToString number;
            whole = take (length input - 18) input;
            decimals = filter (\<lambda>c. c \<noteq> CHR ''0'') (drop (length input - 18) input)
        in whole @ (if length decimals > 0 then ''.'' else '''') @ decimals)"

subsection \<open>updateCollectionFloorAndTotal\<close>

text \<open>
  One iteration of the scan at position \<open>index\<close> of the snapshot \<^verbatim>\<open>listings\<close>; the state
  of the loop is the in-memory collection and the \<^verbatim>\<open>floorPrices\<close> map (a \<^verbatim>\<open>TypedMap\<close>: a
  list of entries searched from the front, \<^verbatim>\<open>set\<close> replacing in place or appending).
  The else branch cuts position \<open>index\<close> out of the collection's current \<^verbatim>\<open>listingIds\<close>.
\<close>

definition scanStep ::
    "store \<Rightarrow> string \<Rightarrow> nat \<Rightarrow> Collection \<times> (string \<times> int) list
       \<Rightarrow> Collection \<times> (string \<times> int) list" where
  "scanStep s key index st =
     (let collection = fst st; floorPrices = snd st;
          pruned = collection\<lparr>listingIds :=
                      take index (listingIds collection)
                        @ drop (index + 1) (listingIds collection)\<rparr>
      in case listings s key of
           None \<Rightarrow> (pruned, floorPrices)
         | Some listing \<Rightarrow>
             if Listing.status listing = ''Active'' then
               (let floorPrice = Collection.floorPrice collection;
                    pricePerItem = Listing.pricePerItem listing;
                    floorPrices' =
                      (if Collection.standard collection = ''ERC1155'' then
                         (case map_of floorPrices (Listing.token listing) of
                            None \<Rightarrow> AList.update (Listing.token listing) pricePerItem floorPrices
                          | Some tokenFloorPrice \<Rightarrow>
                              if tokenFloorPrice > pricePerItem
                              then AList.update (Listing.token listing) pricePerItem floorPrices
                              else floorPrices)
                       else floorPrices);
                    collection' =
                      (if floorPrice = 0 \<or> floorPrice > pricePerItem
                       then collection\<lparr>Collection.floorPrice := pricePerItem\<rparr>
                       else collection)
                in (collection', floorPrices'))
             else (pruned, floorPrices))"

fun scanListings ::
    "store \<Rightarrow> string list \<Rightarrow> nat \<Rightarrow> Collection \<times> (string \<times> int) list
       \<Rightarrow> Collection \<times> (string \<times> int) list" where
  "scanListings s [] index st = st"
| "scanListings s (key # rest) index st = scanListings s rest (index + 1) (scanStep s key index st)"

fun saveTokenFloors :: "(string \<times> int) list \<Rightarrow> store \<Rightarrow> store" where
  "saveTokenFloors [] s = s"
| "saveTokenFloors (entry # entries) s =
     saveTokenFloors entries
       (case tokens s (fst entry) of
          Some t \<Rightarrow> (let token = t in saveToken (token\<lparr>Token.floorPrice := Some (snd entry)\<rparr>) s)
        | None \<Rightarrow> s)"

text \<open>
  The collection is loaded by the hexadecimal form of the address; an absent collection
  ends the call with the store unchanged.  \<^verbatim>\<open>listings\<close> is the snapshot of the index that
  the first loop walks; the second loop saves the floor of every token met, in the order
  of the entries of \<^verbatim>\<open>floorPrices\<close>.  The length of the index is taken to fit \<^verbatim>\<open>BigInt.fromI32\<close>.
\<close>

definition updateCollectionFloorAndTotal :: "bytes \<Rightarrow> store \<Rightarrow> store" where
  "updateCollectionFloorAndTotal addr s =
     (case collections s (toHexString addr) of
        None \<Rightarrow> s
      | Some c \<Rightarrow>
          let collection = c;
              listings = listingIds collection;
              scanned = scanListings s listings 0
                          (collection\<lparr>Collection.floorPrice := ZERO_BI\<rparr>, []);
              s1 = saveTokenFloors (snd scanned) s;
              collection' = (fst scanned)\<lparr>totalListings := int (length (listingIds (fst scanned)))\<rparr>
          in saveCollection collection' s1)"

subsection \<open>The event handlers\<close>

text \<open>
  Each handler takes the event and the store and returns the store it leaves.  The null
  guards on entities obtained from the accessors are kept as tests of \<open>isNull\<close>.
  Logging has no effect on the store and is left out.  In \<^verbatim>\<open>handleItemSold\<close> the test
  \<^verbatim>\<open>sold.quantity ? sold.quantity.plus(quantity) : quantity\<close> picks between two equal values
  whenever it can fail (a quantity that is zero): the result is the sum in both cases.
\<close>

definition handleItemCanceled :: "ItemCanceled \<Rightarrow> store \<Rightarrow> store" where
  "handleItemCanceled params s =
     (let listing = getOrCreateListing s
                      (getListingId (ItemCanceled.seller params) (ItemCanceled.nftAddress params)
                         (ItemCanceled.tokenId params));
          user = getOrCreateUser s (toHexString (ItemCanceled.seller params));
          userToken = getOrCreateUserToken s (Listing.id listing);
          userToken' = userToken\<lparr>UserToken.quantity :=
                                    UserToken.quantity userToken + Listing.quantity listing,
                                  UserToken.token := Listing.token listing,
                                  UserToken.user := Listing.user listing\<rparr>;
          s1 = removeListing (Listing.id listing) s;
          s2 = saveUserToken userToken' s1
      in if isNull listing then s
         else if isNull user then s
         else if isNull userToken then s
         else updateCollectionFloorAndTotal (ItemCanceled.nftAddress params) s2)"

definition handleItemListed :: "ItemListed \<Rightarrow> store \<Rightarrow> store" where
  "handleItemListed params s =
     (let pricePerItem = ItemListed.pricePerItem params;
          quantity = ItemListed.quantity params;
          tokenAddress = ItemListed.nftAddress params;
          tokenId = ItemListed.tokenId params;
          seller = ItemListed.seller params;
          listing = getOrCreateListing s (getListingId seller tokenAddress tokenId);
          token = getOrCreateToken s (getTokenId tokenAddress tokenId);
          collection = getOrCreateCollection s (Token.collection token);
          floorPrice = Collection.floorPrice collection;
          collection1 = (if floorPrice = 0 \<or> floorPrice > pricePerItem
                         then collection\<lparr>Collection.floorPrice := pricePerItem\<rparr>
                         else collection);
          updateToken = (Collection.standard collection1 = ''ERC1155''
                           \<and> (case Token.floorPrice token of
                                 None \<Rightarrow> True
                               | Some tokenFloorPrice \<Rightarrow> tokenFloorPrice > pricePerItem));
          token1 = (if updateToken then token\<lparr>Token.floorPrice := Some pricePerItem\<rparr> else token);
          s1 = (if updateToken then saveToken token1 s else s);
          collection2 = collection1\<lparr>listingIds := listingIds collection1 @ [Listing.id listing],
                                     totalListings := totalListings collection1 + ONE_BI\<rparr>;
          listing' = listing\<lparr>Listing.blockTimestamp := ItemListed.timestamp params,
                              Listing.collection := Token.collection token1,
                              Listing.collectionName := Collection.name collection2,
                              Listing.expires := ItemListed.expirationTime params,
                              Listing.pricePerItem := pricePerItem,
                              Listing.quantity := quantity,
                              Listing.status := ''Active'',
                              Listing.token := Token.id token1,
                              Listing.tokenName := Token.name token1,
                              Listing.user := toHexString seller\<rparr>;
          userToken = getOrCreateUserToken s1 (Listing.id listing');
          s2 = (if UserToken.quantity userToken = quantity
                then removeUserToken (Listing.id listing') s1
                else saveUserToken
                       (userToken\<lparr>UserToken.quantity := UserToken.quantity userToken - quantity\<rparr>) s1);
          s3 = saveCollection collection2 s2
      in saveListing listing' s3)"

definition handleItemSold :: "string \<Rightarrow> ItemSold \<Rightarrow> store \<Rightarrow> store" where
  "handleItemSold EXPLORER params s =
     (let quantity = ItemSold.quantity params;
          seller = ItemSold.seller params;
          buyer = ItemSold.buyer params;
          listing = getOrCreateListing s
                      (getListingId seller (ItemSold.nftAddress params) (ItemSold.tokenId params));
          full = (Listing.quantity listing = quantity);
          listing1 = (if full then listing
                      else listing\<lparr>Listing.quantity := Listing.quantity listing - quantity\<rparr>);
          s1 = (if full then removeListing (Listing.id listing) s else saveListing listing1 s);
          staleId = Listing.id listing1 @ ''-'' @ bigIntToString (ItemSold.logIndex params);
          s2 = (if listings s1 staleId \<noteq> None then removeListing staleId s1 else s1);
          sold = getOrCreateListing s2
                   (Listing.id listing1 @ ''-'' @ bigIntToString (Listing.blockTimestamp listing1));
          pricePerItem = Listing.pricePerItem listing1;
          updatedQuantity = Listing.quantity sold + quantity;
          sold' = sold\<lparr>Listing.blockTimestamp := ItemSold.timestamp params,
                        Listing.buyer := toHexString buyer,
                        Listing.collection := Listing.collection listing1,
                        Listing.collectionName := Listing.collectionName listing1,
                        Listing.expires := ZERO_BI,
                        Listing.pricePerItem := pricePerItem,
                        Listing.nicePrice := formatPrice pricePerItem,
                        Listing.quantity := updatedQuantity,
                        Listing.status := ''Sold'',
                        Listing.token := Listing.token listing1,
                        Listing.tokenName := Listing.tokenName listing1,
                        Listing.totalPrice := formatPrice (pricePerItem * updatedQuantity),
                        Listing.transactionLink :=
                          ''https://'' @ EXPLORER @ ''/tx/''
                            @ toHexString (ItemSold.transactionHash params),
                        Listing.user := toHexString seller\<rparr>;
          s3 = saveListing sold' s2
      in if isNull listing then s
         else updateCollectionFloorAndTotal (ItemSold.nftAddress params) s3)"

definition handleItemUpdated :: "ItemUpdated \<Rightarrow> store \<Rightarrow> store" where
  "handleItemUpdated params s =
     (let listingId = getListingId (ItemUpdated.seller params) (ItemUpdated.nftAddress params)
                        (ItemUpdated.tokenId params)
      in case listings s listingId of
           None \<Rightarrow> s
         | Some listing \<Rightarrow>
             let s1 = (if Listing.quantity listing \<noteq> ItemUpdated.quantity params then
                         (let userToken = getOrCreateUserToken s (Listing.id listing);
                              userToken1 = userToken\<lparr>UserToken.quantity :=
                                UserToken.quantity userToken
                                  + (Listing.quantity listing - ItemUpdated.quantity params)\<rparr>
                          in if UserToken.quantity userToken1 = ZERO_BI
                             then removeUserToken (UserToken.id userToken1) s
                             else saveUserToken
                                    (userToken1\<lparr>UserToken.token := Listing.token listing,
                                                UserToken.user := Listing.user listing\<rparr>) s)
                       else s);
                 listing1 = (if Listing.pricePerItem listing \<noteq> ItemUpdated.pricePerItem params
                             then listing\<lparr>Listing.blockTimestamp := ItemUpdated.timestamp params\<rparr>
                             else listing);
                 listing2 = listing1\<lparr>Listing.quantity := ItemUpdated.quantity params,
                                      Listing.pricePerItem := ItemUpdated.pricePerItem params,
                                      Listing.expires := ItemUpdated.expirationTime params\<rparr>
             in updateCollectionFloorAndTotal (ItemUpdated.nftAddress params)
                  (saveListing listing2 s1))"

definition handleItemSoldStaging :: "ItemSold \<Rightarrow> store \<Rightarrow> store" where
  "handleItemSoldStaging params s =
     (case userTokens s (getListingId (ItemSold.buyer params) (ItemSold.nftAddress params)
                           (ItemSold.tokenId params)) of
        None \<Rightarrow> s
      | Some userToken \<Rightarrow>
          if ItemSold.quantity params = UserToken.quantity userToken
          then removeUserToken (UserToken.id userToken) s
          else saveUserToken
                 (userToken\<lparr>UserToken.quantity :=
                    UserToken.quantity userToken - ItemSold.quantity params\<rparr>) s)"

subsection \<open>Event sequences\<close>

datatype event =
    Listed ItemListed
  | Updated ItemUpdated
  | Canceled ItemCanceled
  | Sold ItemSold

fun handleEvent :: "string \<Rightarrow> event \<Rightarrow> store \<Rightarrow> store" where
  "handleEvent EXPLORER (Listed e) s = handleItemListed e s"
| "handleEvent EXPLORER (Updated e) s = handleItemUpdated e s"
| "handleEvent EXPLORER (Canceled e) s = handleItemCanceled e s"
| "handleEvent EXPLORER (Sold e) s = handleItemSold EXPLORER e s"

fun processEvents :: "string \<Rightarrow> event list \<Rightarrow> store \<Rightarrow> store" where
  "processEvents EXPLORER [] s = s"
| "processEvents EXPLORER (e # es) s = processEvents EXPLORER es (handleEvent EXPLORER e s)"

section \<open>Notions used to state the properties\<close>

text \<open>
  Every entity is stored under its own \<^verbatim>\<open>id\<close>: \<^verbatim>\<open>save\<close> is the only way into a table and
  it writes under the entity's \<^verbatim>\<open>id\<close>.
\<close>

definition wellKeyed :: "store \<Rightarrow> bool" where
  "wellKeyed s \<longleftrightarrow>
     (\<forall>k c. collections s k = Some c \<longrightarrow> Collection.id c = k) \<and>
     (\<forall>k t. tokens s k = Some t \<longrightarrow> Token.id t = k) \<and>
     (\<forall>k l. listings s k = Some l \<longrightarrow> Listing.id l = k) \<and>
     (\<forall>k u. userTokens s k = Some u \<longrightarrow> UserToken.id u = k)"

text \<open>
  The prices of the Active listings that a list of keys refers to, in the order of the
  keys, and the update of the running collection floor by one candidate price.
\<close>

definition activePrices :: "store \<Rightarrow> string list \<Rightarrow> int list" where
  "activePrices s ks =
     concat (map (\<lambda>k. case listings s k of
                          None \<Rightarrow> []
                        | Some l \<Rightarrow>
                            if Listing.status l = ''Active'' then [Listing.pricePerItem l] else [])
                 ks)"

definition lowerFloor :: "int \<Rightarrow> int \<Rightarrow> int" where
  "lowerFloor f p = (if f = 0 \<or> f > p then p else f)"

text \<open>
  The unlisted quantity a seller holds of a token (zero when no UserToken is stored), the
  quantity on offer in the Active listing under a key, and their sum.  The handlers write
  the Active listing of a seller for a token only under the key derived from seller,
  contract and token id, which is also the key of the seller's UserToken.
\<close>

definition userTokenQuantity :: "store \<Rightarrow> string \<Rightarrow> int" where
  "userTokenQuantity s k = (case userTokens s k of None \<Rightarrow> 0 | Some u \<Rightarrow> UserToken.quantity u)"

definition activeQuantity :: "store \<Rightarrow> string \<Rightarrow> int" where
  "activeQuantity s k =
     (case listings s k of
        None \<Rightarrow> 0
      | Some l \<Rightarrow> if Listing.status l = ''Active'' then Listing.quantity l else 0)"

definition inventory :: "store \<Rightarrow> string \<Rightarrow> int" where
  "inventory s k = userTokenQuantity s k + activeQuantity s k"

definition userTokensPositive :: "store \<Rightarrow> bool" where
  "userTokensPositive s \<longleftrightarrow> (\<forall>k u. userTokens s k = Some u \<longrightarrow> 0 < UserToken.quantity u)"

text \<open>
  The floor of every stored collection is the least price among the stored Active listings
  that refer to it, and zero when there is none.
\<close>

definition activeIn :: "store \<Rightarrow> string \<Rightarrow> Listing \<Rightarrow> bool" where
  "activeIn s cid l \<longleftrightarrow>
     (\<exists>k. listings s k = Some l) \<and> Listing.status l = ''Active'' \<and> Listing.collection l = cid"

definition floorCorrect :: "store \<Rightarrow> bool" where
  "floorCorrect s \<longleftrightarrow>
     (\<forall>cid c. collections s cid = Some c \<longrightarrow>
        (if \<exists>l. activeIn s cid l
         then (\<exists>l. activeIn s cid l \<and> Listing.pricePerItem l = Collection.floorPrice c)
              \<and> (\<forall>l. activeIn s cid l \<longrightarrow> Collection.floorPrice c \<le> Listing.pricePerItem l)
         else Collection.floorPrice c = 0))"

text \<open>
  A key is alive when an Active listing is stored under it; \<open>floorOf\<close> is the least price
  of the Active listings that a list of keys names, or zero when it names none.
\<close>

definition alive :: "store \<Rightarrow> string \<Rightarrow> bool" where
  "alive s k \<longleftrightarrow> (\<exists>l. listings s k = Some l \<and> Listing.status l = ''Active'')"

definition floorOf :: "store \<Rightarrow> string list \<Rightarrow> int" where
  "floorOf s ks = (if activePrices s ks = [] then 0 else Min (set (activePrices s ks)))"

text \<open>
  The invariant behind the floor price.  Every Active listing has a nonzero price, is stored
  under a key derived from a seller, a contract and a token id, and is named in the index of
  the collection it refers to, which is stored.  The index of every stored collection names,
  without repetition, only Active listings of that collection, and the collection's floor is
  \<open>floorOf\<close> its index.  The empty store satisfies it.
\<close>

definition listingsIndexed :: "store \<Rightarrow> bool" where
  "listingsIndexed s \<longleftrightarrow>
     (\<forall>k l. listings s k = Some l \<and> Listing.status l = ''Active'' \<longrightarrow>
        Listing.pricePerItem l \<noteq> 0
        \<and> (\<exists>sel adr tid. k = getListingId sel adr tid)
        \<and> (\<exists>c. collections s (Listing.collection l) = Some c \<and> k \<in> set (listingIds c)))"

definition indexesExact :: "store \<Rightarrow> bool" where
  "indexesExact s \<longleftrightarrow>
     (\<forall>cid c. collections s cid = Some c \<longrightarrow>
        distinct (listingIds c)
        \<and> (\<forall>k\<in>set (listingIds c).
              \<exists>l. listings s k = Some l \<and> Listing.status l = ''Active''
                  \<and> Listing.collection l = cid)
        \<and> Collection.floorPrice c = floorOf s (listingIds c))"

definition floorInvariant :: "store \<Rightarrow> bool" where
  "floorInvariant s \<longleftrightarrow> wellKeyed s \<and> listingsIndexed s \<and> indexesExact s"

text \<open>
  The events under which the invariant is kept.  A listing has a nonzero price and finds no
  Active listing under its key.  The other three handlers recalculate the collection stored
  under the address of the event's contract, which need not be the collection the listing
  refers to (the listing took it from its token); so an update has a nonzero price and, if
  it changes the price of an Active listing, that listing refers to the collection of the
  event's contract; a cancellation of an Active listing, and a sale of the whole quantity of
  an Active listing, find the listing referring to the collection of the event's contract.
  A sale of a part of the quantity is unrestricted.
\<close>

fun accepts :: "store \<Rightarrow> event \<Rightarrow> bool" where
  "accepts s (Listed e) \<longleftrightarrow>
     ItemListed.pricePerItem e \<noteq> 0
     \<and> \<not> alive s (getListingId (ItemListed.seller e) (ItemListed.nftAddress e)
                     (ItemListed.tokenId e))"
| "accepts s (Updated e) \<longleftrightarrow>
     ItemUpdated.pricePerItem e \<noteq> 0
     \<and> (\<forall>l. listings s (getListingId (ItemUpdated.seller e) (ItemUpdated.nftAddress e)
                          (ItemUpdated.tokenId e)) = Some l
             \<and> Listing.status l = ''Active''
             \<and> Listing.pricePerItem l \<noteq> ItemUpdated.pricePerItem e
          \<longrightarrow> Listing.collection l = toHexString (ItemUpdated.nftAddress e))"
| "accepts s (Canceled e) \<longleftrightarrow>
     (\<forall>l. listings s (getListingId (ItemCanceled.seller e) (ItemCanceled.nftAddress e)
                          (ItemCanceled.tokenId e)) = Some l
             \<and> Listing.status l = ''Active''
          \<longrightarrow> Listing.collection l = toHexString (ItemCanceled.nftAddress e))"
| "accepts s (Sold e) \<longleftrightarrow>
     (\<forall>l. listings s (getListingId (ItemSold.seller e) (ItemSold.nftAddress e)
                          (ItemSold.tokenId e)) = Some l
             \<and> Listing.status l = ''Active''
             \<and> Listing.quantity l = ItemSold.quantity e
          \<longrightarrow> Listing.collection l = toHexString (ItemSold.nftAddress e))"

fun admissible :: "string \<Rightarrow> event list \<Rightarrow> store \<Rightarrow> bool" where
  "admissible EXPLORER [] s \<longleftrightarrow> True"
| "admissible EXPLORER (e # es) s \<longleftrightarrow>
     accepts s e \<and> admissible EXPLORER es (handleEvent EXPLORER e s)"

text \<open>Reading a decimal rendering back, to show that \<^verbatim>\<open>toString\<close> is injective.\<close>

definition digitValue :: "char \<Rightarrow> nat" where
  "digitValue c = of_char c - 48"

definition fromDigits :: "string \<Rightarrow> nat" where
  "fromDigits cs = foldl (\<lambda>a c. 10 * a + digitValue c) 0 cs"

subsection \<open>Example inputs\<close>

definition alice :: bytes where
  "alice = [0,0,0,0,0,0,0,0,0,0,0,0,0,0,0,0,0,0,0,0xa1]"

definition bob :: bytes where
  "bob = [0,0,0,0,0,0,0,0,0,0,0,0,0,0,0,0,0,0,0,0xb2]"

definition carol :: bytes where
  "carol = [0,0,0,0,0,0,0,0,0,0,0,0,0,0,0,0,0,0,0,0xc3]"

definition nft :: bytes where
  "nft = [0,0,0,0,0,0,0,0,0,0,0,0,0,0,0,0,0,0,0,0x1f]"

definition exampleListing :: "string \<Rightarrow> int \<Rightarrow> int \<Rightarrow> Listing" where
  "exampleListing k p q =
     \<lparr>Listing.id = k, blockTimestamp = 100, buyer = '''', collection = toHexString nft,
      collectionName = ''c'', expires = 0, nicePrice = '''', pricePerItem = p, quantity = q,
      status = ''Active'', token = getTokenId nft 1, tokenName = ''t'', totalPrice = '''',
      transactionLink = '''', user = ''''\<rparr>"

definition exampleCollection :: "string list \<Rightarrow> Collection" where
  "exampleCollection ks =
     \<lparr>Collection.id = toHexString nft, name = ''c'', standard = ''ERC721'', floorPrice = 7,
      totalListings = int (length ks), listingIds = ks\<rparr>"

text \<open>
  The index names the listings of alice, bob and carol; those of alice and bob are gone
  from the store, carol's is Active.
\<close>

definition staleIndexStore :: store where
  "staleIndexStore = emptyStore
     \<lparr>collections := [toHexString nft \<mapsto>
        exampleCollection
          [getListingId alice nft 1, getListingId bob nft 1, getListingId carol nft 1]],
      listings := [getListingId carol nft 1 \<mapsto> exampleListing (getListingId carol nft 1) 7 1]\<rparr>"

text \<open>
  The index names the Active listings of alice (price 9) and carol (price 7), and bob's,
  which is gone.
\<close>

definition mixedIndexStore :: store where
  "mixedIndexStore = emptyStore
     \<lparr>collections := [toHexString nft \<mapsto>
        exampleCollection
          [getListingId alice nft 1, getListingId bob nft 1, getListingId carol nft 1]],
      listings := [getListingId alice nft 1 \<mapsto> exampleListing (getListingId alice nft 1) 9 5,
                   getListingId carol nft 1 \<mapsto> exampleListing (getListingId carol nft 1) 7 1]\<rparr>"

definition txHash :: bytes where
  "txHash = [0,0,0,0,0,0,0,0,0,0,0,0,0,0,0,0,0,0,0,0,0,0,0,0,0,0,0,0,0,0,0,0x77]"

definition explorer :: string where
  "explorer = ''explorer.example''"

definition aliceListed :: "int \<Rightarrow> int \<Rightarrow> int \<Rightarrow> ItemListed" where
  "aliceListed q p t =
     \<lparr>ItemListed.seller = alice, nftAddress = nft, tokenId = 1, quantity = q, pricePerItem = p,
      expirationTime = 1000, timestamp = t\<rparr>"

definition aliceSold :: "int \<Rightarrow> int \<Rightarrow> int \<Rightarrow> ItemSold" where
  "aliceSold q t i =
     \<lparr>ItemSold.seller = alice, buyer = bob, nftAddress = nft, tokenId = 1, quantity = q,
      pricePerItem = 10, timestamp = t, logIndex = i, transactionHash = txHash\<rparr>"

definition bobListed :: "int \<Rightarrow> int \<Rightarrow> int \<Rightarrow> ItemListed" where
  "bobListed q p t =
     \<lparr>ItemListed.seller = bob, nftAddress = nft, tokenId = 1, quantity = q, pricePerItem = p,
      expirationTime = 1000, timestamp = t\<rparr>"

definition aliceUpdated :: "int \<Rightarrow> int \<Rightarrow> int \<Rightarrow> ItemUpdated" where
  "aliceUpdated q p t =
     \<lparr>ItemUpdated.seller = alice, nftAddress = nft, tokenId = 1, quantity = q, pricePerItem = p,
      expirationTime = 1000, timestamp = t\<rparr>"

definition aliceCanceled :: ItemCanceled where
  "aliceCanceled = \<lparr>ItemCanceled.seller = alice, nftAddress = nft, tokenId = 1\<rparr>"

text \<open>The store above, with ten unlisted units held by alice.\<close>

definition aliceHoldingStore :: store where
  "aliceHoldingStore = mixedIndexStore
     \<lparr>userTokens := [getListingId alice nft 1 \<mapsto>
        \<lparr>UserToken.id = getListingId alice nft 1, quantity = 10, token = getTokenId nft 1,
         user = toHexString alice\<rparr>]\<rparr>"

text \<open>The empty store after alice has listed one unit at price zero.\<close>

definition afterZeroListing :: store where
  "afterZeroListing =
     \<lparr>collections = ['''' \<mapsto>
        \<lparr>Collection.id = '''', name = '''', standard = '''', floorPrice = 0, totalListings = 1,
         listingIds = [getListingId alice nft 1]\<rparr>],
      tokens = Map.empty,
      listings = [getListingId alice nft 1 \<mapsto>
        \<lparr>Listing.id = getListingId alice nft 1, blockTimestamp = 100, buyer = '''',
         collection = '''', collectionName = '''', expires = 1000, nicePrice = '''',
         pricePerItem = 0, quantity = 1, status = ''Active'', token = getTokenId nft 1,
         tokenName = '''', totalPrice = '''', transactionLink = '''',
         user = toHexString alice\<rparr>],
      users = Map.empty,
      userTokens = [getListingId alice nft 1 \<mapsto>
        \<lparr>UserToken.id = getListingId alice nft 1, quantity = - 1, token = '''', user = ''''\<rparr>]\<rparr>"

text \<open>The empty store with the token of the examples, referring to its contract's collection.\<close>

definition wiredStore :: store where
  "wiredStore = emptyStore
     \<lparr>tokens := [getTokenId nft 1 \<mapsto>
        \<lparr>Token.id = getTokenId nft 1, collection = toHexString nft, name = ''t'',
         floorPrice = None\<rparr>]\<rparr>"

text \<open>A sale in which alice buys from bob.\<close>

definition aliceBought :: "int \<Rightarrow> ItemSold" where
  "aliceBought q =
     \<lparr>ItemSold.seller = bob, buyer = alice, nftAddress = nft, tokenId = 1, quantity = q,
      pricePerItem = 10, timestamp = 400, logIndex = 4, transactionHash = txHash\<rparr>"

text \<open>
  The Active listing that \<^verbatim>\<open>handleItemListed\<close> stores for a seller of token 1 of the example
  contract, given the collection id and the name of the token, the quantity, the price and
  the block timestamp; and the UserToken it saves when the seller held none.
\<close>

definition activeListing :: "bytes \<Rightarrow> string \<Rightarrow> string \<Rightarrow> int \<Rightarrow> int \<Rightarrow> int \<Rightarrow> Listing" where
  "activeListing sel cid tn q p t =
     \<lparr>Listing.id = getListingId sel nft 1, blockTimestamp = t, buyer = '''', collection = cid,
      collectionName = '''', expires = 1000, nicePrice = '''', pricePerItem = p, quantity = q,
      status = ''Active'', token = getTokenId nft 1, tokenName = tn, totalPrice = '''',
      transactionLink = '''', user = toHexString sel\<rparr>"

definition owedTokens :: "bytes \<Rightarrow> int \<Rightarrow> UserToken" where
  "owedTokens sel q =
     \<lparr>UserToken.id = getListingId sel nft 1, quantity = - q, token = '''', user = ''''\<rparr>"

text \<open>The empty store after alice has listed five units at price nine.\<close>

definition afterListing :: store where
  "afterListing =
     \<lparr>collections = ['''' \<mapsto>
        \<lparr>Collection.id = '''', name = '''', standard = '''', floorPrice = 9, totalListings = 1,
         listingIds = [getListingId alice nft 1]\<rparr>],
      tokens = Map.empty,
      listings = [getListingId alice nft 1 \<mapsto> activeListing alice '''' '''' 5 9 100],
      users = Map.empty,
      userTokens = [getListingId alice nft 1 \<mapsto> owedTokens alice 5]\<rparr>"

text \<open>
  The store with the token of the examples after alice has listed five units at price
  seven, and after bob has then listed one unit at price nine.
\<close>

definition wiredListed :: store where
  "wiredListed = wiredStore
     \<lparr>collections := [toHexString nft \<mapsto>
        \<lparr>Collection.id = toHexString nft, name = '''', standard = '''', floorPrice = 7,
         totalListings = 1, listingIds = [getListingId alice nft 1]\<rparr>],
      listings := [getListingId alice nft 1 \<mapsto> activeListing alice (toHexString nft) ''t'' 5 7 100],
      userTokens := [getListingId alice nft 1 \<mapsto> owedTokens alice 5]\<rparr>"

definition wiredListedTwice :: store where
  "wiredListedTwice = wiredStore
     \<lparr>collections := [toHexString nft \<mapsto>
        \<lparr>Collection.id = toHexString nft, name = '''', standard = '''', floorPrice = 7,
         totalListings = 2, listingIds = [getListingId alice nft 1, getListingId bob nft 1]\<rparr>],
      listings := [getListingId alice nft 1 \<mapsto> activeListing alice (toHexString nft) ''t'' 5 7 100,
                   getListingId bob nft 1 \<mapsto> activeListing bob (toHexString nft) ''t'' 1 9 101],
      userTokens := [getListingId alice nft 1 \<mapsto> owedTokens alice 5,
                     getListingId bob nft 1 \<mapsto> owedTokens bob 1]\<rparr>"

section \<open>Evaluation of the examples\<close>

lemmas hex_defs = toHexString_def hexByte_def hexDigit_def getListingId_def getTokenId_def
  bigIntToString_def natToString.simps

lemmas eval_defs = updateCollectionFloorAndTotal_def scanStep_def saveCollection_def saveToken_def
  saveListing_def saveUserToken_def removeListing_def removeUserToken_def emptyStore_def
  getOrCreateCollection_def getOrCreateToken_def getOrCreateListing_def getOrCreateUser_def
  getOrCreateUserToken_def ZERO_BI_def ONE_BI_def Let_def

lemma nft_hex: "toHexString nft = ''0x000000000000000000000000000000000000001f''"
  by (simp add: nft_def hex_defs)

lemma nft_token: "getTokenId nft 1 = ''0x000000000000000000000000000000000000001f-1''"
  by (simp add: nft_def hex_defs)

lemma alice_key:
  "getListingId alice nft 1 =
     ''0x00000000000000000000000000000000000000a1-0x000000000000000000000000000000000000001f-1''"
  by (simp add: nft_def alice_def hex_defs)

lemma bob_key:
  "getListingId bob nft 1 =
     ''0x00000000000000000000000000000000000000b2-0x000000000000000000000000000000000000001f-1''"
  by (simp add: nft_def bob_def hex_defs)

lemma carol_key:
  "getListingId carol nft 1 =
     ''0x00000000000000000000000000000000000000c3-0x000000000000000000000000000000000000001f-1''"
  by (simp add: nft_def carol_def hex_defs)

lemmas example_defs = exampleListing_def exampleCollection_def nft_hex nft_token
  alice_key bob_key carol_key

section \<open>formatPrice\<close>

text \<open>
  C5.  The claim: \<^verbatim>\<open>formatPrice(0)\<close> is \<^verbatim>\<open>0\<close>, and a positive amount is rendered as its
  whole part, then a decimal point and the last 18 digits with the trailing zeros
  stripped; so \<^verbatim>\<open>formatPrice(5)\<close> would be \<^verbatim>\<open>0.000000000000000005\<close>.  The function removes
  every zero of the last 18 digits, not only the trailing ones, and pads nothing: an
  amount below \<open>10^18\<close> has an empty whole part, and zeros between the decimal point and
  a later digit are lost.  The values of the claim for \<open>0\<close>, \<open>10^18\<close> and
  \<open>1.5 * 10^18\<close> are those of the function.
\<close>

theorem formatPrice_drops_inner_zeros:
  "formatPrice 5 = ''.5''
   \<and> formatPrice 1050000000000000000 = ''1.5''
   \<and> formatPrice 0 = ''0''
   \<and> formatPrice (10 ^ 18) = ''1''
   \<and> formatPrice 1500000000000000000 = ''1.5''"
  by (simp add: formatPrice_def bigIntToString_def natToString.simps hexDigit_def)

section \<open>The recalculation of a collection\<close>

lemma saveTokenFloors_frame:
  "listings (saveTokenFloors es s) = listings s"
  "userTokens (saveTokenFloors es s) = userTokens s"
  "collections (saveTokenFloors es s) = collections s"
  "users (saveTokenFloors es s) = users s"
  by (induction es arbitrary: s; simp add: saveToken_def split: option.splits)+

lemma updateCollectionFloorAndTotal_frame:
  "listings (updateCollectionFloorAndTotal a s) = listings s"
  "userTokens (updateCollectionFloorAndTotal a s) = userTokens s"
  "users (updateCollectionFloorAndTotal a s) = users s"
  by (simp_all add: updateCollectionFloorAndTotal_def saveCollection_def Let_def
        saveTokenFloors_frame split: option.splits)

lemma scanStep_id: "Collection.id (fst (scanStep s k i st)) = Collection.id (fst st)"
  by (simp add: scanStep_def Let_def split: option.splits)

lemma scanListings_id: "Collection.id (fst (scanListings s ks i st)) = Collection.id (fst st)"
  by (induction ks arbitrary: i st) (simp_all add: scanStep_id)

lemma scanStep_floor:
  "Collection.floorPrice (fst (scanStep s k i st)) =
     foldl lowerFloor (Collection.floorPrice (fst st)) (activePrices s [k])"
  by (simp add: scanStep_def activePrices_def lowerFloor_def Let_def split: option.splits)

lemma activePrices_Cons: "activePrices s (k # ks) = activePrices s [k] @ activePrices s ks"
  by (simp add: activePrices_def)

lemma scanListings_floor:
  "Collection.floorPrice (fst (scanListings s ks i st)) =
     foldl lowerFloor (Collection.floorPrice (fst st)) (activePrices s ks)"
proof (induction ks arbitrary: i st)
  case Nil
  show ?case by (simp add: activePrices_def)
next
  case (Cons k ks)
  show ?case
    by (simp add: Cons.IH scanStep_floor activePrices_Cons [of s k ks])
qed

lemma foldl_lowerFloor_nonzero:
  "f \<noteq> 0 \<Longrightarrow> 0 \<notin> set ps \<Longrightarrow> foldl lowerFloor f ps = Min (insert f (set ps))"
proof (induction ps arbitrary: f)
  case Nil
  show ?case by simp
next
  case (Cons p ps)
  have nz: "lowerFloor f p \<noteq> 0" using Cons.prems by (auto simp: lowerFloor_def)
  have eq: "lowerFloor f p = min f p" using Cons.prems by (auto simp: lowerFloor_def)
  have "foldl lowerFloor (lowerFloor f p) ps = Min (insert (lowerFloor f p) (set ps))"
    using Cons.IH [OF nz] Cons.prems by simp
  moreover have "Min (insert (min f p) (set ps)) = Min (insert f (set (p # ps)))"
    by (cases "ps = []") (simp_all add: min.assoc)
  ultimately show ?case by (simp add: eq)
qed

lemma foldl_lowerFloor_zero:
  "0 \<notin> set ps \<Longrightarrow> foldl lowerFloor 0 ps = (if ps = [] then 0 else Min (set ps))"
proof (cases ps)
  case Nil
  then show ?thesis by simp
next
  case (Cons p qs)
  assume "0 \<notin> set ps"
  then have "p \<noteq> 0" "0 \<notin> set qs" using Cons by auto
  then show ?thesis using Cons foldl_lowerFloor_nonzero [of p qs] by (simp add: lowerFloor_def)
qed

text \<open>
  C2.  The claim: after \<^verbatim>\<open>updateCollectionFloorAndTotal\<close> on an existing collection every
  entry left in \<^verbatim>\<open>listingIds\<close> refers to a stored Active listing, and \<^verbatim>\<open>totalListings\<close> is
  the length of the pruned index.  The scan walks a snapshot of the index but cuts position
  \<open>index\<close> out of the current, already shortened, index: after a first removal every
  later removal hits the entry one place further on.  On the index
  \<open>[alice, bob, carol]\<close> with only carol's listing stored (and Active), bob's dead entry
  is kept and carol's live entry is cut; \<^verbatim>\<open>totalListings\<close> is the length of what is left.
\<close>

theorem prune_keeps_dead_entry:
  "map_option listingIds
       (collections (updateCollectionFloorAndTotal nft staleIndexStore) (toHexString nft))
     = Some [getListingId bob nft 1]
   \<and> listings (updateCollectionFloorAndTotal nft staleIndexStore) (getListingId bob nft 1) = None
   \<and> map_option Listing.status
       (listings (updateCollectionFloorAndTotal nft staleIndexStore) (getListingId carol nft 1))
     = Some ''Active''
   \<and> map_option totalListings
       (collections (updateCollectionFloorAndTotal nft staleIndexStore) (toHexString nft))
     = Some 1"
  by (simp add: staleIndexStore_def eval_defs example_defs)

text \<open>
  C3.  The claim: running \<^verbatim>\<open>updateCollectionFloorAndTotal\<close> twice in succession leaves the
  same \<^verbatim>\<open>floorPrice\<close> and the same \<^verbatim>\<open>listingIds\<close> as running it once.  On the store of C2
  the first run leaves the index \<open>[bob]\<close> and the floor 7 (carol's price, read from the
  snapshot); the second run removes bob's dead entry and, carol's entry being gone from the
  index, resets the floor to zero.
\<close>

theorem recalculation_not_idempotent:
  "map_option (\<lambda>c. (Collection.floorPrice c, listingIds c))
       (collections (updateCollectionFloorAndTotal nft staleIndexStore) (toHexString nft))
     = Some (7, [getListingId bob nft 1])
   \<and> map_option (\<lambda>c. (Collection.floorPrice c, listingIds c))
       (collections
          (updateCollectionFloorAndTotal nft (updateCollectionFloorAndTotal nft staleIndexStore))
          (toHexString nft))
     = Some (0, [])"
  by (simp add: staleIndexStore_def eval_defs example_defs)

section \<open>Decimal rendering is injective\<close>

lemma lt10_cases: "n < (10::nat) \<Longrightarrow> n \<in> {0,1,2,3,4,5,6,7,8,9}"
  by auto

lemma digitValue_hexDigit: "n < 10 \<Longrightarrow> digitValue (hexDigit n) = n"
  using lt10_cases [of n] by (auto simp: digitValue_def hexDigit_def)

lemma hexDigit_not_minus: "n < 10 \<Longrightarrow> hexDigit n \<noteq> CHR ''-''"
  using lt10_cases [of n] by (auto simp: hexDigit_def)

lemma fromDigits_natToString: "fromDigits (natToString n) = n"
proof (induction n rule: natToString.induct)
  case (1 n)
  show ?case
  proof (cases "n < 10")
    case True
    then show ?thesis
      by (subst natToString.simps) (simp add: fromDigits_def digitValue_hexDigit)
  next
    case False
    then have "fromDigits (natToString (n div 10)) = n div 10" using 1 by simp
    then show ?thesis using False
      by (subst natToString.simps) (simp add: fromDigits_def digitValue_hexDigit)
  qed
qed

lemma natToString_inj: "natToString m = natToString n \<Longrightarrow> m = n"
  by (metis fromDigits_natToString)

lemma natToString_no_minus: "CHR ''-'' \<notin> set (natToString n)"
proof (induction n rule: natToString.induct)
  case (1 n)
  show ?case
  proof (cases "n < 10")
    case True
    then show ?thesis by (subst natToString.simps) (simp add: hexDigit_not_minus [THEN not_sym])
  next
    case False
    then show ?thesis using 1
      by (subst natToString.simps) (simp add: hexDigit_not_minus [THEN not_sym])
  qed
qed

lemma bigIntToString_inj: "bigIntToString i = bigIntToString j \<longleftrightarrow> i = j"
proof
  assume eq: "bigIntToString i = bigIntToString j"
  have neg: "\<And>a b. ''-'' @ natToString a \<noteq> natToString b"
    using natToString_no_minus by (metis append_Cons list.set_intros(1))
  show "i = j"
  proof (cases "i < 0")
    case True
    then have "j < 0" using eq neg [of "nat (- i)" "nat j"]
      by (auto simp: bigIntToString_def split: if_splits)
    then show ?thesis using True eq natToString_inj [of "nat (- i)" "nat (- j)"]
      by (simp add: bigIntToString_def)
  next
    case False
    then have "\<not> j < 0" using eq neg [of "nat (- j)" "nat i"]
      by (auto simp: bigIntToString_def split: if_splits)
    then show ?thesis using False eq natToString_inj [of "nat i" "nat j"]
      by (simp add: bigIntToString_def)
  qed
qed simp

section \<open>Stores keyed by entity id\<close>

lemma wellKeyed_saveListing: "wellKeyed s \<Longrightarrow> wellKeyed (saveListing l s)"
  by (simp add: wellKeyed_def saveListing_def)

lemma wellKeyed_saveUserToken: "wellKeyed s \<Longrightarrow> wellKeyed (saveUserToken u s)"
  by (simp add: wellKeyed_def saveUserToken_def)

lemma wellKeyed_saveToken: "wellKeyed s \<Longrightarrow> wellKeyed (saveToken t s)"
  by (simp add: wellKeyed_def saveToken_def)

lemma wellKeyed_saveCollection: "wellKeyed s \<Longrightarrow> wellKeyed (saveCollection c s)"
  by (simp add: wellKeyed_def saveCollection_def)

lemma wellKeyed_removeListing: "wellKeyed s \<Longrightarrow> wellKeyed (removeListing k s)"
  by (simp add: wellKeyed_def removeListing_def)

lemma wellKeyed_removeUserToken: "wellKeyed s \<Longrightarrow> wellKeyed (removeUserToken k s)"
  by (simp add: wellKeyed_def removeUserToken_def)

lemmas wellKeyed_ops = wellKeyed_saveListing wellKeyed_saveUserToken wellKeyed_saveToken
  wellKeyed_saveCollection wellKeyed_removeListing wellKeyed_removeUserToken

lemma wellKeyed_saveTokenFloors: "wellKeyed s \<Longrightarrow> wellKeyed (saveTokenFloors es s)"
  by (induction es arbitrary: s) (simp_all add: wellKeyed_saveToken split: option.splits)

lemma wellKeyed_updateCollectionFloorAndTotal:
  "wellKeyed s \<Longrightarrow> wellKeyed (updateCollectionFloorAndTotal a s)"
  by (simp add: updateCollectionFloorAndTotal_def Let_def wellKeyed_saveCollection
      wellKeyed_saveTokenFloors split: option.splits)

lemma wellKeyed_handleItemListed: "wellKeyed s \<Longrightarrow> wellKeyed (handleItemListed e s)"
  by (simp add: handleItemListed_def Let_def wellKeyed_ops)

lemma wellKeyed_handleItemCanceled: "wellKeyed s \<Longrightarrow> wellKeyed (handleItemCanceled e s)"
  by (simp add: handleItemCanceled_def Let_def wellKeyed_ops wellKeyed_updateCollectionFloorAndTotal)

lemma wellKeyed_handleItemSold: "wellKeyed s \<Longrightarrow> wellKeyed (handleItemSold ex e s)"
  by (simp add: handleItemSold_def Let_def wellKeyed_ops wellKeyed_updateCollectionFloorAndTotal)

lemma wellKeyed_handleItemUpdated: "wellKeyed s \<Longrightarrow> wellKeyed (handleItemUpdated e s)"
  by (simp add: handleItemUpdated_def Let_def wellKeyed_ops wellKeyed_updateCollectionFloorAndTotal
      split: option.splits)

lemma wellKeyed_emptyStore: "wellKeyed emptyStore"
  by (simp add: wellKeyed_def emptyStore_def)

lemma wellKeyed_processEvents: "wellKeyed s \<Longrightarrow> wellKeyed (processEvents ex es s)"
proof (induction es arbitrary: s)
  case Nil
  then show ?case by simp
next
  case (Cons e es)
  have "wellKeyed (handleEvent ex e s)"
    using Cons.prems
    by (cases e) (simp_all add: wellKeyed_handleItemListed wellKeyed_handleItemCanceled
        wellKeyed_handleItemSold wellKeyed_handleItemUpdated)
  then show ?case using Cons.IH by simp
qed

section \<open>The handlers on the listing table\<close>

lemma handleItemSold_listings:
  assumes "wellKeyed s"
  shows "listings (handleItemSold ex e s) =
     (let key = getListingId (ItemSold.seller e) (ItemSold.nftAddress e) (ItemSold.tokenId e);
          listing = getOrCreateListing s key;
          full = (Listing.quantity listing = ItemSold.quantity e);
          listing1 = (if full then listing
                      else listing\<lparr>Listing.quantity := Listing.quantity listing - ItemSold.quantity e\<rparr>);
          m1 = (if full then (listings s)(key := None) else (listings s)(key \<mapsto> listing1));
          staleId = key @ ''-'' @ bigIntToString (ItemSold.logIndex e);
          m2 = m1(staleId := None);
          soldKey = key @ ''-'' @ bigIntToString (Listing.blockTimestamp listing);
          sold = (case m2 soldKey of Some r \<Rightarrow> r | None \<Rightarrow> getOrCreateListing emptyStore soldKey);
          q = Listing.quantity sold + ItemSold.quantity e
      in m2(soldKey \<mapsto> sold\<lparr>Listing.blockTimestamp := ItemSold.timestamp e,
                        Listing.buyer := toHexString (ItemSold.buyer e),
                        Listing.collection := Listing.collection listing,
                        Listing.collectionName := Listing.collectionName listing,
                        Listing.expires := 0,
                        Listing.pricePerItem := Listing.pricePerItem listing,
                        Listing.nicePrice := formatPrice (Listing.pricePerItem listing),
                        Listing.quantity := q,
                        Listing.status := ''Sold'',
                        Listing.token := Listing.token listing,
                        Listing.tokenName := Listing.tokenName listing,
                        Listing.totalPrice := formatPrice (Listing.pricePerItem listing * q),
                        Listing.transactionLink :=
                          ''https://'' @ ex @ ''/tx/'' @ toHexString (ItemSold.transactionHash e),
                        Listing.user := toHexString (ItemSold.seller e)\<rparr>))"
proof -
  let ?key = "getListingId (ItemSold.seller e) (ItemSold.nftAddress e) (ItemSold.tokenId e)"
  have id: "Listing.id (getOrCreateListing s ?key) = ?key"
    using assms by (auto simp: wellKeyed_def getOrCreateListing_def split: option.splits)
  have wk: "\<And>k r. listings s k = Some r \<Longrightarrow> Listing.id r = k"
    using assms by (auto simp: wellKeyed_def)
  show ?thesis
    apply (simp add: handleItemSold_def updateCollectionFloorAndTotal_frame Let_def id
        saveListing_def removeListing_def ZERO_BI_def cong: if_cong)
    apply (auto simp: getOrCreateListing_def emptyStore_def fun_upd_idem wk
        split: option.splits intro!: ext)
    done
qed

lemma getOrCreateListing_id:
  "wellKeyed s \<Longrightarrow> Listing.id (getOrCreateListing s k) = k"
  by (auto simp: wellKeyed_def getOrCreateListing_def split: option.splits)

lemma getOrCreateListing_absent_id:
  "listings s k = None \<Longrightarrow> Listing.id (getOrCreateListing s k) = k"
  by (simp add: getOrCreateListing_def)

lemma handleItemListed_listings_other:
  assumes "Listing.id (getOrCreateListing s (getListingId (ItemListed.seller e)
             (ItemListed.nftAddress e) (ItemListed.tokenId e)))
           = getListingId (ItemListed.seller e) (ItemListed.nftAddress e) (ItemListed.tokenId e)"
      and "k \<noteq> getListingId (ItemListed.seller e) (ItemListed.nftAddress e) (ItemListed.tokenId e)"
  shows "listings (handleItemListed e s) k = listings s k"
  using assms
  by (simp add: handleItemListed_def Let_def saveListing_def
      saveCollection_def saveUserToken_def removeUserToken_def saveToken_def)

lemma handleItemListed_listings_key:
  assumes "Listing.id (getOrCreateListing s (getListingId (ItemListed.seller e)
             (ItemListed.nftAddress e) (ItemListed.tokenId e)))
           = getListingId (ItemListed.seller e) (ItemListed.nftAddress e) (ItemListed.tokenId e)"
  shows "\<exists>n. listings (handleItemListed e s)
               (getListingId (ItemListed.seller e) (ItemListed.nftAddress e) (ItemListed.tokenId e))
             = Some n
           \<and> Listing.status n = ''Active''
           \<and> Listing.quantity n = ItemListed.quantity e
           \<and> Listing.pricePerItem n = ItemListed.pricePerItem e
           \<and> Listing.blockTimestamp n = ItemListed.timestamp e"
  using assms
  by (simp add: handleItemListed_def Let_def saveListing_def
      saveCollection_def saveUserToken_def removeUserToken_def saveToken_def)

section \<open>Facts about the example store\<close>

lemma wellKeyed_mixedIndexStore: "wellKeyed mixedIndexStore"
  by (simp add: wellKeyed_def mixedIndexStore_def emptyStore_def example_defs)

lemma mixedIndexStore_alice:
  "listings mixedIndexStore (getListingId alice nft 1)
     = Some (exampleListing (getListingId alice nft 1) 9 5)"
  by (simp add: mixedIndexStore_def emptyStore_def alice_key carol_key)

lemma decimal_100: "bigIntToString 100 = ''100''"
  by (simp add: bigIntToString_def natToString.simps hexDigit_def)

lemma aliceListed_fields:
  "ItemListed.seller (aliceListed q p t) = alice" "ItemListed.nftAddress (aliceListed q p t) = nft"
  "ItemListed.tokenId (aliceListed q p t) = 1" "ItemListed.quantity (aliceListed q p t) = q"
  "ItemListed.pricePerItem (aliceListed q p t) = p" "ItemListed.timestamp (aliceListed q p t) = t"
  by (simp_all add: aliceListed_def)

lemma aliceSold_fields:
  "ItemSold.seller (aliceSold q t i) = alice" "ItemSold.buyer (aliceSold q t i) = bob"
  "ItemSold.nftAddress (aliceSold q t i) = nft" "ItemSold.tokenId (aliceSold q t i) = 1"
  "ItemSold.quantity (aliceSold q t i) = q" "ItemSold.timestamp (aliceSold q t i) = t"
  "ItemSold.logIndex (aliceSold q t i) = i"
  by (simp_all add: aliceSold_def)

lemma mixedIndexStore_sold_absent:
  "listings mixedIndexStore (getListingId alice nft 1 @ ''-'' @ bigIntToString 100) = None"
  by (simp add: mixedIndexStore_def emptyStore_def alice_key carol_key decimal_100)

lemma first_sale_listing:
  "listings (handleItemSold explorer (aliceSold 2 200 3) mixedIndexStore) (getListingId alice nft 1)
     = Some (exampleListing (getListingId alice nft 1) 9 3)"
  by (simp add: handleItemSold_listings [OF wellKeyed_mixedIndexStore] Let_def aliceSold_fields
      getOrCreateListing_def mixedIndexStore_alice exampleListing_def)

lemma first_sale_record:
  "map_option Listing.quantity
     (listings (handleItemSold explorer (aliceSold 2 200 3) mixedIndexStore)
        (getListingId alice nft 1 @ ''-'' @ bigIntToString 100)) = Some 2"
  using mixedIndexStore_sold_absent
  by (simp add: handleItemSold_listings [OF wellKeyed_mixedIndexStore] Let_def aliceSold_fields
      getOrCreateListing_def mixedIndexStore_alice exampleListing_def emptyStore_def
      ZERO_BI_def bigIntToString_inj)

section \<open>Sales\<close>

text \<open>
  C6.  The claim: when no listing is stored under the key derived from the event,
  \<^verbatim>\<open>handleItemSold\<close> returns without any store mutation.  The handler obtains the listing
  through \<^verbatim>\<open>getOrCreateListing\<close>, which never returns null, so its guard never fires (the
  sibling \<^verbatim>\<open>handleItemUpdated\<close> uses \<^verbatim>\<open>Listing.load\<close>, and its guard does).  On the empty
  store, a sale of one unit saves a listing of quantity \<open>-1\<close> and no status under the
  original key, and a Sold record under the key suffixed with the default timestamp 0.
\<close>

theorem sale_of_missing_listing_mutates:
  "map_option (\<lambda>l. (Listing.quantity l, Listing.status l))
       (listings (handleItemSold explorer (aliceSold 1 200 3) emptyStore) (getListingId alice nft 1))
     = Some (- 1, '''')
   \<and> map_option (\<lambda>l. (Listing.quantity l, Listing.status l))
       (listings (handleItemSold explorer (aliceSold 1 200 3) emptyStore)
          (getListingId alice nft 1 @ ''-0''))
     = Some (1, ''Sold'')
   \<and> listings emptyStore (getListingId alice nft 1) = None"
  by (simp add: handleItemSold_def aliceSold_def eval_defs example_defs bigIntToString_def
        natToString.simps hexDigit_def)

text \<open>
  C7.  When an Active listing is sold in full, \<^verbatim>\<open>handleItemSold\<close> removes the record under
  the listing's key and leaves, under the key suffixed with the listing's timestamp, the
  Sold record of this sale: the listing's collection, token, names and price, the buyer,
  the seller, the timestamp and the transaction link of the sale, and as quantity the
  quantity sold, added to the quantity of a record already stored under the suffixed key
  (unless that key is also the stale key \<^verbatim>\<open><key>-<logIndex>\<close>, which is cleared first).
  Every other key keeps its record, except the stale key, which is cleared.  A following
  \<^verbatim>\<open>handleItemListed\<close> for the same seller, contract and token stores the new Active
  listing under the original key, which differs from the suffixed key, and changes the
  record of no other key, so the Sold record stays as it was.
\<close>

theorem sold_record_frees_listing_key:
  assumes "wellKeyed s"
      and "listings s (getListingId sel adr tid) = Some l"
      and "Listing.status l = ''Active''"
      and "ItemSold.seller sale = sel" "ItemSold.nftAddress sale = adr"
          "ItemSold.tokenId sale = tid"
      and "ItemSold.quantity sale = Listing.quantity l"
      and "ItemListed.seller relist = sel" "ItemListed.nftAddress relist = adr"
          "ItemListed.tokenId relist = tid"
  shows "let key = getListingId sel adr tid;
             soldKey = key @ ''-'' @ bigIntToString (Listing.blockTimestamp l);
             staleKey = key @ ''-'' @ bigIntToString (ItemSold.logIndex sale);
             carried = (if ItemSold.logIndex sale = Listing.blockTimestamp l then 0
                        else case listings s soldKey of
                               None \<Rightarrow> 0
                             | Some r \<Rightarrow> Listing.quantity r);
             s1 = handleItemSold ex sale s;
             s2 = handleItemListed relist s1;
             token = getOrCreateToken s1 (getTokenId adr tid);
             collection = getOrCreateCollection s1 (Token.collection token)
         in listings s1 key = None
            \<and> listings s1 soldKey = Some
                 \<lparr>Listing.id = soldKey,
                  blockTimestamp = ItemSold.timestamp sale,
                  buyer = toHexString (ItemSold.buyer sale),
                  collection = Listing.collection l,
                  collectionName = Listing.collectionName l,
                  expires = 0,
                  nicePrice = formatPrice (Listing.pricePerItem l),
                  pricePerItem = Listing.pricePerItem l,
                  quantity = carried + ItemSold.quantity sale,
                  status = ''Sold'',
                  token = Listing.token l,
                  tokenName = Listing.tokenName l,
                  totalPrice = formatPrice (Listing.pricePerItem l
                                             * (carried + ItemSold.quantity sale)),
                  transactionLink = ''https://'' @ ex @ ''/tx/''
                                      @ toHexString (ItemSold.transactionHash sale),
                  user = toHexString sel\<rparr>
            \<and> (\<forall>k. k \<noteq> key \<and> k \<noteq> soldKey
                   \<longrightarrow> listings s1 k = (if k = staleKey then None else listings s k))
            \<and> soldKey \<noteq> key
            \<and> listings s2 key = Some
                 \<lparr>Listing.id = key,
                  blockTimestamp = ItemListed.timestamp relist,
                  buyer = '''',
                  collection = Token.collection token,
                  collectionName = Collection.name collection,
                  expires = ItemListed.expirationTime relist,
                  nicePrice = '''',
                  pricePerItem = ItemListed.pricePerItem relist,
                  quantity = ItemListed.quantity relist,
                  status = ''Active'',
                  token = Token.id token,
                  tokenName = Token.name token,
                  totalPrice = '''',
                  transactionLink = '''',
                  user = toHexString sel\<rparr>
            \<and> (\<forall>k. k \<noteq> key \<longrightarrow> listings s2 k = listings s1 k)"
proof -
  let ?key = "getListingId sel adr tid"
  let ?soldKey = "?key @ ''-'' @ bigIntToString (Listing.blockTimestamp l)"
  let ?staleKey = "?key @ ''-'' @ bigIntToString (ItemSold.logIndex sale)"
  let ?s1 = "handleItemSold ex sale s"
  let ?s2 = "handleItemListed relist ?s1"
  let ?carried = "if ItemSold.logIndex sale = Listing.blockTimestamp l then 0
                  else case listings s ?soldKey of None \<Rightarrow> 0 | Some r \<Rightarrow> Listing.quantity r"
  have prior: "\<And>r. listings s ?soldKey = Some r \<Longrightarrow> Listing.id r = ?soldKey"
    using assms(1) by (auto simp: wellKeyed_def)
  have gone: "listings ?s1 ?key = None"
    using assms by (simp add: handleItemSold_listings [OF assms(1)] Let_def getOrCreateListing_def)
  have sold: "listings ?s1 ?soldKey = Some
                 \<lparr>Listing.id = ?soldKey,
                  blockTimestamp = ItemSold.timestamp sale,
                  buyer = toHexString (ItemSold.buyer sale),
                  collection = Listing.collection l,
                  collectionName = Listing.collectionName l,
                  expires = 0,
                  nicePrice = formatPrice (Listing.pricePerItem l),
                  pricePerItem = Listing.pricePerItem l,
                  quantity = ?carried + ItemSold.quantity sale,
                  status = ''Sold'',
                  token = Listing.token l,
                  tokenName = Listing.tokenName l,
                  totalPrice = formatPrice (Listing.pricePerItem l
                                             * (?carried + ItemSold.quantity sale)),
                  transactionLink = ''https://'' @ ex @ ''/tx/''
                                      @ toHexString (ItemSold.transactionHash sale),
                  user = toHexString sel\<rparr>"
    using assms prior
    by (auto simp: handleItemSold_listings [OF assms(1)] Let_def getOrCreateListing_def
        emptyStore_def ZERO_BI_def bigIntToString_inj split: option.splits
        intro!: Listing.equality)
  have rest: "\<forall>k. k \<noteq> ?key \<and> k \<noteq> ?soldKey
                \<longrightarrow> listings ?s1 k = (if k = ?staleKey then None else listings s k)"
    using assms by (simp add: handleItemSold_listings [OF assms(1)] Let_def getOrCreateListing_def)
  have fresh: "Listing.id (getOrCreateListing ?s1 ?key) = ?key"
    using gone by (simp add: getOrCreateListing_absent_id)
  have new: "listings ?s2 ?key = Some
                 \<lparr>Listing.id = ?key,
                  blockTimestamp = ItemListed.timestamp relist,
                  buyer = '''',
                  collection = Token.collection (getOrCreateToken ?s1 (getTokenId adr tid)),
                  collectionName = Collection.name (getOrCreateCollection ?s1
                     (Token.collection (getOrCreateToken ?s1 (getTokenId adr tid)))),
                  expires = ItemListed.expirationTime relist,
                  nicePrice = '''',
                  pricePerItem = ItemListed.pricePerItem relist,
                  quantity = ItemListed.quantity relist,
                  status = ''Active'',
                  token = Token.id (getOrCreateToken ?s1 (getTokenId adr tid)),
                  tokenName = Token.name (getOrCreateToken ?s1 (getTokenId adr tid)),
                  totalPrice = '''',
                  transactionLink = '''',
                  user = toHexString sel\<rparr>"
    using assms(8-10) fresh gone
    by (simp add: handleItemListed_def Let_def saveListing_def saveCollection_def
        saveUserToken_def removeUserToken_def saveToken_def getOrCreateListing_def ZERO_BI_def)
  have kept: "\<forall>k. k \<noteq> ?key \<longrightarrow> listings ?s2 k = listings ?s1 k"
    using handleItemListed_listings_other [of ?s1 relist] fresh assms(8-10) by simp
  show ?thesis
    unfolding Let_def using gone sold rest new kept by simp
qed

theorem sold_record_frees_listing_key_witness:
  "wellKeyed mixedIndexStore
   \<and> map_option Listing.status (listings mixedIndexStore (getListingId alice nft 1))
       = Some ''Active''
   \<and> listings (handleItemSold explorer (aliceSold 5 200 3) mixedIndexStore)
        (getListingId alice nft 1) = None
   \<and> map_option (\<lambda>r. (Listing.status r, Listing.quantity r, Listing.pricePerItem r,
                       Listing.blockTimestamp r, Listing.buyer r, Listing.user r,
                       Listing.totalPrice r))
        (listings (handleItemSold explorer (aliceSold 5 200 3) mixedIndexStore)
           (getListingId alice nft 1 @ ''-100''))
       = Some (''Sold'', 5, 9, 200, toHexString bob, toHexString alice, formatPrice 45)
   \<and> listings (handleItemSold explorer (aliceSold 5 200 3) mixedIndexStore)
        (getListingId alice nft 1 @ ''-3'') = None
   \<and> map_option (\<lambda>n. (Listing.status n, Listing.quantity n, Listing.pricePerItem n,
                       Listing.blockTimestamp n, Listing.user n))
        (listings (handleItemListed (aliceListed 4 12 300)
                     (handleItemSold explorer (aliceSold 5 200 3) mixedIndexStore))
           (getListingId alice nft 1))
       = Some (''Active'', 4, 12, 300, toHexString alice)
   \<and> listings (handleItemListed (aliceListed 4 12 300)
                 (handleItemSold explorer (aliceSold 5 200 3) mixedIndexStore))
        (getListingId alice nft 1 @ ''-100'')
       = listings (handleItemSold explorer (aliceSold 5 200 3) mixedIndexStore)
           (getListingId alice nft 1 @ ''-100'')"
proof -
  have active: "Listing.status (exampleListing (getListingId alice nft 1) 9 5) = ''Active''"
    by (simp add: exampleListing_def)
  have full: "ItemSold.quantity (aliceSold 5 200 3)
                = Listing.quantity (exampleListing (getListingId alice nft 1) 9 5)"
    by (simp add: aliceSold_fields exampleListing_def)
  have fields: "Listing.blockTimestamp (exampleListing (getListingId alice nft 1) 9 5) = 100"
      "Listing.pricePerItem (exampleListing (getListingId alice nft 1) 9 5) = 9"
    by (simp_all add: exampleListing_def)
  have three: "bigIntToString 3 = ''3''"
    by (simp add: bigIntToString_def natToString.simps hexDigit_def)
  have absent: "listings mixedIndexStore (getListingId alice nft 1 @ ''-100'') = None"
    using mixedIndexStore_sold_absent by (simp add: decimal_100)
  have inst: "let s1 = handleItemSold explorer (aliceSold 5 200 3) mixedIndexStore;
                  s2 = handleItemListed (aliceListed 4 12 300) s1
              in listings s1 (getListingId alice nft 1) = None
               \<and> map_option (\<lambda>r. (Listing.status r, Listing.quantity r, Listing.pricePerItem r,
                       Listing.blockTimestamp r, Listing.buyer r, Listing.user r,
                       Listing.totalPrice r))
                    (listings s1 (getListingId alice nft 1 @ ''-100''))
                   = Some (''Sold'', 5, 9, 200, toHexString bob, toHexString alice,
                           formatPrice 45)
               \<and> (\<forall>k. k \<noteq> getListingId alice nft 1 \<and> k \<noteq> getListingId alice nft 1 @ ''-100''
                      \<longrightarrow> listings s1 k = (if k = getListingId alice nft 1 @ ''-3'' then None
                                           else listings mixedIndexStore k))
               \<and> map_option (\<lambda>n. (Listing.status n, Listing.quantity n, Listing.pricePerItem n,
                       Listing.blockTimestamp n, Listing.user n))
                    (listings s2 (getListingId alice nft 1))
                   = Some (''Active'', 4, 12, 300, toHexString alice)
               \<and> (\<forall>k. k \<noteq> getListingId alice nft 1 \<longrightarrow> listings s2 k = listings s1 k)"
    using sold_record_frees_listing_key
            [OF wellKeyed_mixedIndexStore mixedIndexStore_alice active _ _ _ full,
             where relist = "aliceListed 4 12 300" and ex = explorer]
    by (simp add: Let_def aliceSold_fields aliceListed_fields fields decimal_100 three absent)
  have st: "map_option Listing.status (listings mixedIndexStore (getListingId alice nft 1))
       = Some ''Active''"
    by (simp add: mixedIndexStore_alice active)
  show ?thesis
    using inst st wellKeyed_mixedIndexStore by (simp add: Let_def)
qed

text \<open>
  C10.  The claim: the Sold record is kept under \<^verbatim>\<open><key>-<t>\<close> with \<open>t\<close> the listing's
  stored \<^verbatim>\<open>blockTimestamp\<close>, so successive partial sales with no price change in between
  accumulate their quantities in that one record, whose \<^verbatim>\<open>totalPrice\<close> is the price per
  item times the accumulated quantity.  As stated it fails when the log index of the later
  sale equals the listing's stored timestamp: the record under \<^verbatim>\<open><key>-<logIndex>\<close> is then
  removed before the Sold record is fetched, and the accumulation restarts.
\<close>

theorem stale_key_removal_resets_sold_record:
  "map_option Listing.quantity
       (listings (handleItemSold explorer (aliceSold 2 200 3) mixedIndexStore)
          (getListingId alice nft 1 @ ''-'' @ bigIntToString 100))
     = Some 2
   \<and> map_option (\<lambda>r. (Listing.quantity r, Listing.totalPrice r))
       (listings (handleItemSold explorer (aliceSold 1 300 100)
                    (handleItemSold explorer (aliceSold 2 200 3) mixedIndexStore))
          (getListingId alice nft 1 @ ''-'' @ bigIntToString 100))
     = Some (1, formatPrice 9)"
proof -
  have wk1: "wellKeyed (handleItemSold explorer (aliceSold 2 200 3) mixedIndexStore)"
    using wellKeyed_mixedIndexStore by (rule wellKeyed_handleItemSold)
  have second: "map_option (\<lambda>r. (Listing.quantity r, Listing.totalPrice r))
       (listings (handleItemSold explorer (aliceSold 1 300 100)
                    (handleItemSold explorer (aliceSold 2 200 3) mixedIndexStore))
          (getListingId alice nft 1 @ ''-'' @ bigIntToString 100))
     = Some (1, formatPrice 9)"
    apply (simp add: handleItemSold_listings [OF wk1] Let_def)
    apply (simp add: aliceSold_fields getOrCreateListing_def first_sale_listing exampleListing_def
        emptyStore_def ZERO_BI_def)
    done
  show ?thesis using first_sale_record second by simp
qed

text \<open>
  C10, amended.  If the log index of the second sale differs from the listing's stored
  timestamp \<open>t\<close>, then after a partial sale followed by a second sale of the same
  listing (at any block timestamps) the Sold record under \<^verbatim>\<open><key>-<t>\<close> holds the quantity
  it had after the first sale plus the second quantity (the first quantity alone after the
  first sale when no record was there before), and its \<^verbatim>\<open>totalPrice\<close> is \<^verbatim>\<open>formatPrice\<close> of
  the listing's price per item times that accumulated quantity.
\<close>

theorem partial_sales_accumulate:
  assumes "wellKeyed s"
      and "listings s (getListingId sel adr tid) = Some l"
      and "ItemSold.seller first = sel" "ItemSold.nftAddress first = adr"
          "ItemSold.tokenId first = tid"
      and "ItemSold.seller second = sel" "ItemSold.nftAddress second = adr"
          "ItemSold.tokenId second = tid"
      and "ItemSold.quantity first \<noteq> Listing.quantity l"
      and "ItemSold.logIndex second \<noteq> Listing.blockTimestamp l"
  shows "let soldKey = getListingId sel adr tid @ ''-''
                         @ bigIntToString (Listing.blockTimestamp l);
             s1 = handleItemSold ex first s;
             s2 = handleItemSold ex second s1
         in \<exists>r1 r2. listings s1 soldKey = Some r1 \<and> listings s2 soldKey = Some r2
              \<and> (listings s soldKey = None \<longrightarrow> Listing.quantity r1 = ItemSold.quantity first)
              \<and> Listing.quantity r2 = Listing.quantity r1 + ItemSold.quantity second
              \<and> Listing.status r2 = ''Sold''
              \<and> Listing.pricePerItem r2 = Listing.pricePerItem l
              \<and> Listing.totalPrice r2
                  = formatPrice (Listing.pricePerItem l * Listing.quantity r2)"
proof -
  let ?key = "getListingId sel adr tid"
  let ?soldKey = "?key @ ''-'' @ bigIntToString (Listing.blockTimestamp l)"
  let ?s1 = "handleItemSold ex first s"
  have wk1: "wellKeyed ?s1" using assms(1) by (rule wellKeyed_handleItemSold)
  have left: "listings ?s1 ?key
                = Some (l\<lparr>Listing.quantity := Listing.quantity l - ItemSold.quantity first\<rparr>)"
    using assms by (simp add: handleItemSold_listings [OF assms(1)] Let_def getOrCreateListing_def)
  obtain r1 where r1: "listings ?s1 ?soldKey = Some r1"
      "listings s ?soldKey = None \<longrightarrow> Listing.quantity r1 = ItemSold.quantity first"
    using assms
    by (simp add: handleItemSold_listings [OF assms(1)] Let_def getOrCreateListing_def
        emptyStore_def ZERO_BI_def split: option.splits)
  show ?thesis
    using assms left r1
    by (simp add: handleItemSold_listings [OF wk1] Let_def getOrCreateListing_def
        bigIntToString_inj)
qed

theorem partial_sales_accumulate_witness:
  "wellKeyed mixedIndexStore
   \<and> (\<exists>r. listings (handleItemSold explorer (aliceSold 1 300 4)
                        (handleItemSold explorer (aliceSold 2 200 3) mixedIndexStore))
              (getListingId alice nft 1 @ ''-100'') = Some r
            \<and> Listing.quantity r = 3 \<and> Listing.status r = ''Sold''
            \<and> Listing.totalPrice r = formatPrice 27)"
proof -
  have partial: "ItemSold.quantity (aliceSold 2 200 3)
                \<noteq> Listing.quantity (exampleListing (getListingId alice nft 1) 9 5)"
    by (simp add: aliceSold_fields exampleListing_def)
  have idx: "ItemSold.logIndex (aliceSold 1 300 4)
                \<noteq> Listing.blockTimestamp (exampleListing (getListingId alice nft 1) 9 5)"
    by (simp add: aliceSold_fields exampleListing_def)
  have absent: "listings mixedIndexStore (getListingId alice nft 1 @ ''-100'') = None"
    by (simp add: mixedIndexStore_def emptyStore_def alice_key carol_key)
  have fields: "Listing.blockTimestamp (exampleListing (getListingId alice nft 1) 9 5) = 100"
    "Listing.pricePerItem (exampleListing (getListingId alice nft 1) 9 5) = 9"
    by (simp_all add: exampleListing_def)
  show ?thesis
    using partial_sales_accumulate
            [OF wellKeyed_mixedIndexStore mixedIndexStore_alice _ _ _ _ _ _ partial idx,
             of explorer]
    by (auto simp: Let_def aliceSold_fields fields decimal_100 absent wellKeyed_mixedIndexStore)
qed

section \<open>User tokens and listed quantities\<close>

lemma getOrCreateUserToken_id:
  "wellKeyed s \<Longrightarrow> UserToken.id (getOrCreateUserToken s k) = k"
  by (auto simp: wellKeyed_def getOrCreateUserToken_def split: option.splits)

lemma getOrCreateUserToken_quantity:
  "UserToken.quantity (getOrCreateUserToken s k) = userTokenQuantity s k"
  by (simp add: getOrCreateUserToken_def userTokenQuantity_def ZERO_BI_def split: option.splits)

lemma handleItemListed_userTokens:
  assumes "wellKeyed s"
  shows "userTokens (handleItemListed e s) =
     (let key = getListingId (ItemListed.seller e) (ItemListed.nftAddress e) (ItemListed.tokenId e)
      in if userTokenQuantity s key = ItemListed.quantity e
         then (userTokens s)(key := None)
         else (userTokens s)(key \<mapsto> (getOrCreateUserToken s key)
                \<lparr>UserToken.quantity := userTokenQuantity s key - ItemListed.quantity e\<rparr>))"
proof -
  let ?key = "getListingId (ItemListed.seller e) (ItemListed.nftAddress e) (ItemListed.tokenId e)"
  have wk: "\<And>u. userTokens s ?key = Some u \<Longrightarrow> UserToken.id u = ?key"
    using assms by (auto simp: wellKeyed_def)
  show ?thesis
    using assms
    by (auto simp: handleItemListed_def Let_def getOrCreateListing_id getOrCreateUserToken_def
        userTokenQuantity_def saveListing_def saveCollection_def saveUserToken_def
        removeUserToken_def saveToken_def ZERO_BI_def wk split: option.splits)
qed

lemma handleItemCanceled_userTokens:
  assumes "wellKeyed s"
  shows "userTokens (handleItemCanceled e s) =
     (let key = getListingId (ItemCanceled.seller e) (ItemCanceled.nftAddress e)
                  (ItemCanceled.tokenId e);
          listing = getOrCreateListing s key
      in (userTokens s)(key \<mapsto> (getOrCreateUserToken s key)
            \<lparr>UserToken.quantity := userTokenQuantity s key + Listing.quantity listing,
             UserToken.token := Listing.token listing,
             UserToken.user := Listing.user listing\<rparr>))"
  using assms
  by (simp add: handleItemCanceled_def Let_def updateCollectionFloorAndTotal_frame
      getOrCreateListing_id getOrCreateUserToken_id getOrCreateUserToken_quantity
      saveUserToken_def removeListing_def)

lemma handleItemCanceled_listings:
  assumes "wellKeyed s"
  shows "listings (handleItemCanceled e s) =
     (listings s)(getListingId (ItemCanceled.seller e) (ItemCanceled.nftAddress e)
                    (ItemCanceled.tokenId e) := None)"
  using assms
  by (simp add: handleItemCanceled_def Let_def updateCollectionFloorAndTotal_frame
      getOrCreateListing_id saveUserToken_def removeListing_def)

lemma handleItemUpdated_userTokens:
  assumes "wellKeyed s"
      and "listings s (getListingId (ItemUpdated.seller e) (ItemUpdated.nftAddress e)
                         (ItemUpdated.tokenId e)) = Some l"
  shows "userTokens (handleItemUpdated e s) =
     (let key = getListingId (ItemUpdated.seller e) (ItemUpdated.nftAddress e)
                  (ItemUpdated.tokenId e);
          q = userTokenQuantity s key + (Listing.quantity l - ItemUpdated.quantity e)
      in if Listing.quantity l = ItemUpdated.quantity e then userTokens s
         else if q = 0 then (userTokens s)(key := None)
         else (userTokens s)(key \<mapsto> (getOrCreateUserToken s key)
                \<lparr>UserToken.quantity := q, UserToken.token := Listing.token l,
                 UserToken.user := Listing.user l\<rparr>))"
proof -
  have id: "Listing.id l = getListingId (ItemUpdated.seller e) (ItemUpdated.nftAddress e)
                         (ItemUpdated.tokenId e)"
    using assms by (auto simp: wellKeyed_def)
  show ?thesis
    using assms
    by (simp add: handleItemUpdated_def Let_def updateCollectionFloorAndTotal_frame id
        getOrCreateUserToken_id getOrCreateUserToken_quantity saveUserToken_def
        removeUserToken_def saveListing_def ZERO_BI_def)
qed

lemma handleItemUpdated_listings:
  assumes "wellKeyed s"
      and "listings s (getListingId (ItemUpdated.seller e) (ItemUpdated.nftAddress e)
                         (ItemUpdated.tokenId e)) = Some l"
  shows "listings (handleItemUpdated e s) =
            (listings s)(getListingId (ItemUpdated.seller e) (ItemUpdated.nftAddress e)
                           (ItemUpdated.tokenId e) \<mapsto>
              (if Listing.pricePerItem l \<noteq> ItemUpdated.pricePerItem e
               then l\<lparr>Listing.blockTimestamp := ItemUpdated.timestamp e\<rparr> else l)
                \<lparr>Listing.quantity := ItemUpdated.quantity e,
                 Listing.pricePerItem := ItemUpdated.pricePerItem e,
                 Listing.expires := ItemUpdated.expirationTime e\<rparr>)"
proof -
  have id: "Listing.id l = getListingId (ItemUpdated.seller e) (ItemUpdated.nftAddress e)
                         (ItemUpdated.tokenId e)"
    using assms by (auto simp: wellKeyed_def)
  show ?thesis
    using assms
    by (simp add: handleItemUpdated_def Let_def updateCollectionFloorAndTotal_frame id
        saveUserToken_def removeUserToken_def saveListing_def)
qed

lemma handleItemUpdated_absent:
  "listings s (getListingId (ItemUpdated.seller e) (ItemUpdated.nftAddress e)
                 (ItemUpdated.tokenId e)) = None \<Longrightarrow> handleItemUpdated e s = s"
  by (simp add: handleItemUpdated_def)

lemma handleItemListed_active:
  assumes "wellKeyed s"
  shows "activeQuantity (handleItemListed e s) k =
     (if k = getListingId (ItemListed.seller e) (ItemListed.nftAddress e) (ItemListed.tokenId e)
      then ItemListed.quantity e else activeQuantity s k)"
  using handleItemListed_listings_key [of s e] handleItemListed_listings_other [of s e k]
    getOrCreateListing_id [OF assms]
  by (auto simp: activeQuantity_def)

lemma handleItemListed_quantity:
  assumes "wellKeyed s"
  shows "userTokenQuantity (handleItemListed e s) k =
     (if k = getListingId (ItemListed.seller e) (ItemListed.nftAddress e) (ItemListed.tokenId e)
      then userTokenQuantity s k - ItemListed.quantity e else userTokenQuantity s k)"
  by (simp add: userTokenQuantity_def handleItemListed_userTokens [OF assms] Let_def)

lemma userTokenQuantity_emptyStore: "userTokenQuantity emptyStore k = 0"
  by (simp add: userTokenQuantity_def emptyStore_def)

lemma handleItemCanceled_quantity:
  assumes "wellKeyed s"
  shows "userTokenQuantity (handleItemCanceled e s) k =
     (if k = getListingId (ItemCanceled.seller e) (ItemCanceled.nftAddress e)
               (ItemCanceled.tokenId e)
      then userTokenQuantity s k + Listing.quantity (getOrCreateListing s k)
      else userTokenQuantity s k)"
  by (simp add: userTokenQuantity_def handleItemCanceled_userTokens [OF assms] Let_def)

lemma first_listing_quantity:
  "Listing.quantity (getOrCreateListing (handleItemListed (aliceListed 5 10 100) emptyStore)
                       (getListingId alice nft 1)) = 5"
  using handleItemListed_listings_key [of emptyStore "aliceListed 5 10 100"]
  by (auto simp: getOrCreateListing_def aliceListed_fields emptyStore_def)

lemma bobListed_fields:
  "ItemListed.seller (bobListed q p t) = bob" "ItemListed.nftAddress (bobListed q p t) = nft"
  "ItemListed.tokenId (bobListed q p t) = 1" "ItemListed.quantity (bobListed q p t) = q"
  "ItemListed.pricePerItem (bobListed q p t) = p" "ItemListed.timestamp (bobListed q p t) = t"
  by (simp_all add: bobListed_def)

lemma aliceUpdated_fields:
  "ItemUpdated.seller (aliceUpdated q p t) = alice" "ItemUpdated.nftAddress (aliceUpdated q p t) = nft"
  "ItemUpdated.tokenId (aliceUpdated q p t) = 1" "ItemUpdated.quantity (aliceUpdated q p t) = q"
  "ItemUpdated.pricePerItem (aliceUpdated q p t) = p" "ItemUpdated.timestamp (aliceUpdated q p t) = t"
  by (simp_all add: aliceUpdated_def)

lemma aliceCanceled_fields:
  "ItemCanceled.seller aliceCanceled = alice" "ItemCanceled.nftAddress aliceCanceled = nft"
  "ItemCanceled.tokenId aliceCanceled = 1"
  by (simp_all add: aliceCanceled_def)

lemma wellKeyed_aliceHoldingStore: "wellKeyed aliceHoldingStore"
  using wellKeyed_mixedIndexStore by (simp add: wellKeyed_def aliceHoldingStore_def)

lemma aliceHoldingStore_listings: "listings aliceHoldingStore = listings mixedIndexStore"
  by (simp add: aliceHoldingStore_def)

lemma aliceHoldingStore_alice:
  "listings aliceHoldingStore (getListingId alice nft 1)
     = Some (exampleListing (getListingId alice nft 1) 9 5)"
  by (simp add: aliceHoldingStore_listings mixedIndexStore_def emptyStore_def alice_key carol_key)

lemma aliceHoldingStore_bob: "listings aliceHoldingStore (getListingId bob nft 1) = None"
  by (simp add: aliceHoldingStore_listings mixedIndexStore_def emptyStore_def alice_key bob_key
      carol_key)

lemma aliceHoldingStore_quantities:
  "userTokenQuantity aliceHoldingStore (getListingId alice nft 1) = 10"
  "userTokenQuantity aliceHoldingStore (getListingId bob nft 1) = 0"
  "activeQuantity aliceHoldingStore (getListingId alice nft 1) = 5"
  "activeQuantity aliceHoldingStore (getListingId bob nft 1) = 0"
  by (simp_all add: userTokenQuantity_def activeQuantity_def aliceHoldingStore_alice
      aliceHoldingStore_bob exampleListing_def)
     (simp_all add: aliceHoldingStore_def alice_key bob_key)

lemma userTokensPositive_aliceHoldingStore: "userTokensPositive aliceHoldingStore"
  by (simp add: userTokensPositive_def aliceHoldingStore_def)

text \<open>
  C8.  The claim: for a fixed seller and token, the UserToken quantity (zero when absent)
  plus the quantity of the seller's Active listings of the token is left unchanged by every
  \<^verbatim>\<open>handleItemListed\<close>, \<^verbatim>\<open>handleItemUpdated\<close> and \<^verbatim>\<open>handleItemCanceled\<close>.  \<^verbatim>\<open>handleItemListed\<close>
  overwrites a listing that is already Active under the key: the old listed quantity is
  lost while the new one is deducted from the UserToken.  With ten units unlisted and five
  listed, listing three drops the sum from 15 to 10.
\<close>

theorem relisting_breaks_conservation:
  "inventory aliceHoldingStore (getListingId alice nft 1) = 15
   \<and> inventory (handleItemListed (aliceListed 3 10 300) aliceHoldingStore)
        (getListingId alice nft 1) = 10"
  by (simp add: inventory_def handleItemListed_active [OF wellKeyed_aliceHoldingStore]
      handleItemListed_quantity [OF wellKeyed_aliceHoldingStore] aliceListed_fields
      aliceHoldingStore_quantities)

text \<open>
  C8, amended.  In a store keyed by entity id, for every key: \<^verbatim>\<open>handleItemListed\<close> leaves the
  sum of the UserToken quantity and the Active listed quantity unchanged when no Active
  listing of nonzero quantity is stored under the event's key; \<^verbatim>\<open>handleItemUpdated\<close> and
  \<^verbatim>\<open>handleItemCanceled\<close> leave it unchanged when the listing under the event's key, if there
  is one, is Active.
\<close>

theorem inventory_conserved:
  assumes "wellKeyed s"
  shows "(activeQuantity s (getListingId (ItemListed.seller e) (ItemListed.nftAddress e)
                              (ItemListed.tokenId e)) = 0
            \<longrightarrow> inventory (handleItemListed e s) k = inventory s k)
       \<and> ((\<forall>l. listings s (getListingId (ItemUpdated.seller u) (ItemUpdated.nftAddress u)
                                (ItemUpdated.tokenId u)) = Some l
                  \<longrightarrow> Listing.status l = ''Active'')
            \<longrightarrow> inventory (handleItemUpdated u s) k = inventory s k)
       \<and> ((\<forall>l. listings s (getListingId (ItemCanceled.seller c) (ItemCanceled.nftAddress c)
                                (ItemCanceled.tokenId c)) = Some l
                  \<longrightarrow> Listing.status l = ''Active'')
            \<longrightarrow> inventory (handleItemCanceled c s) k = inventory s k)"
proof (intro conjI impI)
  assume "activeQuantity s (getListingId (ItemListed.seller e) (ItemListed.nftAddress e)
                              (ItemListed.tokenId e)) = 0"
  then show "inventory (handleItemListed e s) k = inventory s k"
    by (simp add: inventory_def handleItemListed_active [OF assms]
        handleItemListed_userTokens [OF assms] Let_def userTokenQuantity_def)
next
  let ?key = "getListingId (ItemUpdated.seller u) (ItemUpdated.nftAddress u)
                (ItemUpdated.tokenId u)"
  assume act: "\<forall>l. listings s ?key = Some l \<longrightarrow> Listing.status l = ''Active''"
  show "inventory (handleItemUpdated u s) k = inventory s k"
  proof (cases "listings s ?key")
    case None
    then show ?thesis by (simp add: handleItemUpdated_absent)
  next
    case (Some l)
    then have "Listing.status l = ''Active''" using act by simp
    then show ?thesis
      using Some
      by (simp add: inventory_def activeQuantity_def userTokenQuantity_def Let_def
          handleItemUpdated_listings [OF assms Some] handleItemUpdated_userTokens [OF assms Some])
  qed
next
  let ?key = "getListingId (ItemCanceled.seller c) (ItemCanceled.nftAddress c)
                (ItemCanceled.tokenId c)"
  assume act: "\<forall>l. listings s ?key = Some l \<longrightarrow> Listing.status l = ''Active''"
  show "inventory (handleItemCanceled c s) k = inventory s k"
    using act
    by (auto simp: inventory_def activeQuantity_def userTokenQuantity_def Let_def
        handleItemCanceled_listings [OF assms] handleItemCanceled_userTokens [OF assms]
        getOrCreateListing_def ZERO_BI_def split: option.splits)
qed

theorem inventory_conserved_witness:
  "wellKeyed aliceHoldingStore
   \<and> activeQuantity aliceHoldingStore (getListingId bob nft 1) = 0
   \<and> inventory (handleItemListed (bobListed 3 10 300) aliceHoldingStore) (getListingId bob nft 1)
       = inventory aliceHoldingStore (getListingId bob nft 1)
   \<and> map_option Listing.status (listings aliceHoldingStore (getListingId alice nft 1))
       = Some ''Active''
   \<and> inventory (handleItemUpdated (aliceUpdated 2 9 300) aliceHoldingStore)
        (getListingId alice nft 1) = 15
   \<and> inventory (handleItemCanceled aliceCanceled aliceHoldingStore)
        (getListingId alice nft 1) = 15"
proof -
  have active: "\<forall>l. listings aliceHoldingStore (getListingId alice nft 1) = Some l
                  \<longrightarrow> Listing.status l = ''Active''"
    by (simp add: aliceHoldingStore_alice exampleListing_def)
  have inv: "inventory aliceHoldingStore (getListingId alice nft 1) = 15"
    by (simp add: inventory_def aliceHoldingStore_quantities)
  have st: "map_option Listing.status (listings aliceHoldingStore (getListingId alice nft 1))
       = Some ''Active''"
    by (simp add: aliceHoldingStore_alice exampleListing_def)
  show ?thesis
    using inventory_conserved [OF wellKeyed_aliceHoldingStore,
            of "bobListed 3 10 300" "getListingId bob nft 1" "aliceUpdated 2 9 300" aliceCanceled]
          inventory_conserved [OF wellKeyed_aliceHoldingStore,
            of "bobListed 3 10 300" "getListingId alice nft 1" "aliceUpdated 2 9 300"
               aliceCanceled]
          active inv st
    by (simp add: bobListed_fields aliceUpdated_fields aliceCanceled_fields
        aliceHoldingStore_quantities wellKeyed_aliceHoldingStore)
qed

lemma handleItemSoldStaging_userTokens:
  assumes "wellKeyed s"
  shows "userTokens (handleItemSoldStaging d s) =
     (let key = getListingId (ItemSold.buyer d) (ItemSold.nftAddress d) (ItemSold.tokenId d)
      in case userTokens s key of
           None \<Rightarrow> userTokens s
         | Some u \<Rightarrow>
             if ItemSold.quantity d = UserToken.quantity u then (userTokens s)(key := None)
             else (userTokens s)(key \<mapsto>
                    u\<lparr>UserToken.quantity := UserToken.quantity u - ItemSold.quantity d\<rparr>))"
proof -
  let ?key = "getListingId (ItemSold.buyer d) (ItemSold.nftAddress d) (ItemSold.tokenId d)"
  have wk: "\<And>u. userTokens s ?key = Some u \<Longrightarrow> UserToken.id u = ?key"
    using assms by (auto simp: wellKeyed_def)
  show ?thesis
    by (auto simp: handleItemSoldStaging_def Let_def saveUserToken_def removeUserToken_def wk
        split: option.splits)
qed

lemma aliceBought_fields:
  "ItemSold.seller (aliceBought q) = bob" "ItemSold.buyer (aliceBought q) = alice"
  "ItemSold.nftAddress (aliceBought q) = nft" "ItemSold.tokenId (aliceBought q) = 1"
  "ItemSold.quantity (aliceBought q) = q"
  by (simp_all add: aliceBought_def)

lemma aliceHoldingStore_userToken:
  "userTokens aliceHoldingStore (getListingId alice nft 1)
     = Some \<lparr>UserToken.id = getListingId alice nft 1, quantity = 10, token = getTokenId nft 1,
             user = toHexString alice\<rparr>"
  by (simp add: aliceHoldingStore_def)

text \<open>
  C4.  The claim: every UserToken saved has a non-negative quantity, and a handler that
  brings the quantity to exactly zero deletes the record.  No handler compares the quantity
  it subtracts with the quantity held: listing five units on the empty store saves a
  UserToken of quantity \<open>-5\<close>, and \<^verbatim>\<open>handleItemSoldStaging\<close>, on a store where every
  UserToken is positive and alice holds ten units, saves quantity \<open>-3\<close> when she buys
  thirteen.  \<^verbatim>\<open>handleItemCanceled\<close> saves the sum without looking at it, after the listing
  above with quantity zero.
\<close>

theorem negative_and_zero_userToken_saved:
  "map_option UserToken.quantity
       (userTokens (processEvents explorer [Listed (aliceListed 5 10 100)] emptyStore)
          (getListingId alice nft 1))
     = Some (- 5)
   \<and> map_option UserToken.quantity
       (userTokens (processEvents explorer [Listed (aliceListed 5 10 100), Canceled aliceCanceled]
                      emptyStore)
          (getListingId alice nft 1))
     = Some 0
   \<and> userTokensPositive aliceHoldingStore
   \<and> map_option UserToken.quantity
       (userTokens (handleItemSoldStaging (aliceBought 13) aliceHoldingStore)
          (getListingId alice nft 1))
     = Some (- 3)"
proof -
  let ?s1 = "handleItemListed (aliceListed 5 10 100) emptyStore"
  have wk1: "wellKeyed ?s1" using wellKeyed_emptyStore by (rule wellKeyed_handleItemListed)
  have q1: "userTokenQuantity ?s1 (getListingId alice nft 1) = - 5"
    by (simp add: handleItemListed_quantity [OF wellKeyed_emptyStore] aliceListed_fields
        userTokenQuantity_emptyStore)
  have one: "map_option UserToken.quantity (userTokens ?s1 (getListingId alice nft 1)) = Some (- 5)"
    by (simp add: handleItemListed_userTokens [OF wellKeyed_emptyStore] Let_def
        aliceListed_fields userTokenQuantity_emptyStore)
  have two: "map_option UserToken.quantity
               (userTokens (handleItemCanceled aliceCanceled ?s1) (getListingId alice nft 1))
             = Some 0"
    by (simp add: handleItemCanceled_userTokens [OF wk1] Let_def aliceCanceled_fields q1
        first_listing_quantity)
  have three: "map_option UserToken.quantity
       (userTokens (handleItemSoldStaging (aliceBought 13) aliceHoldingStore)
          (getListingId alice nft 1))
     = Some (- 3)"
    by (simp add: handleItemSoldStaging_userTokens [OF wellKeyed_aliceHoldingStore] Let_def
        aliceBought_fields aliceHoldingStore_userToken)
  show ?thesis using one two three userTokensPositive_aliceHoldingStore by simp
qed

text \<open>
  C4, amended.  In a store keyed by entity id, the UserToken table after each handler is
  exactly this.  \<^verbatim>\<open>handleItemListed\<close> deletes the seller's record when the listed quantity
  equals the quantity held, and otherwise saves it with the difference.
  \<^verbatim>\<open>handleItemUpdated\<close> leaves the store as it is when no listing is stored under the key,
  leaves the table as it is when the quantity does not change, deletes the record when the
  reconciled quantity is zero, and otherwise saves it with that quantity.
  \<^verbatim>\<open>handleItemSoldStaging\<close> leaves the table as it is when the buyer has no record, deletes
  the record when the quantity bought equals the quantity held, and otherwise saves it with
  the difference.  \<^verbatim>\<open>handleItemCanceled\<close> always saves the record, with the sum of the
  quantity held and the listing's quantity.  \<^verbatim>\<open>handleItemSold\<close> writes no UserToken.  So,
  when every stored UserToken has a positive quantity, this still holds after a listing of
  at most the quantity held, after an update whose reconciled quantity is not negative,
  after a staging sale of at most the quantity held, and after a cancellation whose sum is
  positive.
\<close>

theorem userTokens_stay_positive:
  assumes "wellKeyed s"
  shows "(let key = getListingId (ItemListed.seller e) (ItemListed.nftAddress e)
                      (ItemListed.tokenId e);
              held = userTokenQuantity s key
          in userTokens (handleItemListed e s) =
               (if held = ItemListed.quantity e then (userTokens s)(key := None)
                else (userTokens s)(key \<mapsto> (getOrCreateUserToken s key)
                       \<lparr>UserToken.quantity := held - ItemListed.quantity e\<rparr>))
             \<and> (userTokensPositive s \<and> ItemListed.quantity e \<le> held
                  \<longrightarrow> userTokensPositive (handleItemListed e s)))
       \<and> (let key = getListingId (ItemUpdated.seller u) (ItemUpdated.nftAddress u)
                      (ItemUpdated.tokenId u);
              held = userTokenQuantity s key
          in case listings s key of
               None \<Rightarrow> handleItemUpdated u s = s
             | Some l \<Rightarrow>
                 userTokens (handleItemUpdated u s) =
                   (if Listing.quantity l = ItemUpdated.quantity u then userTokens s
                    else if held + (Listing.quantity l - ItemUpdated.quantity u) = 0
                         then (userTokens s)(key := None)
                         else (userTokens s)(key \<mapsto> (getOrCreateUserToken s key)
                                \<lparr>UserToken.quantity :=
                                   held + (Listing.quantity l - ItemUpdated.quantity u),
                                 UserToken.token := Listing.token l,
                                 UserToken.user := Listing.user l\<rparr>))
                 \<and> (userTokensPositive s
                      \<and> 0 \<le> held + (Listing.quantity l - ItemUpdated.quantity u)
                      \<longrightarrow> userTokensPositive (handleItemUpdated u s)))
       \<and> (let key = getListingId (ItemSold.buyer d) (ItemSold.nftAddress d)
                      (ItemSold.tokenId d)
          in userTokens (handleItemSoldStaging d s) =
               (case userTokens s key of
                  None \<Rightarrow> userTokens s
                | Some t \<Rightarrow>
                    if ItemSold.quantity d = UserToken.quantity t
                    then (userTokens s)(key := None)
                    else (userTokens s)(key \<mapsto>
                           t\<lparr>UserToken.quantity := UserToken.quantity t - ItemSold.quantity d\<rparr>))
             \<and> (userTokensPositive s \<and> ItemSold.quantity d \<le> userTokenQuantity s key
                  \<longrightarrow> userTokensPositive (handleItemSoldStaging d s)))
       \<and> (let key = getListingId (ItemCanceled.seller c) (ItemCanceled.nftAddress c)
                      (ItemCanceled.tokenId c);
              listing = getOrCreateListing s key;
              total = userTokenQuantity s key + Listing.quantity listing
          in userTokens (handleItemCanceled c s) =
               (userTokens s)(key \<mapsto> (getOrCreateUserToken s key)
                  \<lparr>UserToken.quantity := total, UserToken.token := Listing.token listing,
                   UserToken.user := Listing.user listing\<rparr>)
             \<and> (userTokensPositive s \<and> 0 < total
                  \<longrightarrow> userTokensPositive (handleItemCanceled c s)))
       \<and> userTokens (handleItemSold ex d s) = userTokens s"
proof (intro conjI)
  show "let key = getListingId (ItemListed.seller e) (ItemListed.nftAddress e)
                      (ItemListed.tokenId e);
              held = userTokenQuantity s key
          in userTokens (handleItemListed e s) =
               (if held = ItemListed.quantity e then (userTokens s)(key := None)
                else (userTokens s)(key \<mapsto> (getOrCreateUserToken s key)
                       \<lparr>UserToken.quantity := held - ItemListed.quantity e\<rparr>))
             \<and> (userTokensPositive s \<and> ItemListed.quantity e \<le> held
                  \<longrightarrow> userTokensPositive (handleItemListed e s))"
    by (auto simp: userTokensPositive_def handleItemListed_userTokens [OF assms] Let_def
        split: if_splits)
next
  let ?key = "getListingId (ItemUpdated.seller u) (ItemUpdated.nftAddress u)
                (ItemUpdated.tokenId u)"
  show "let key = ?key; held = userTokenQuantity s key
          in case listings s key of
               None \<Rightarrow> handleItemUpdated u s = s
             | Some l \<Rightarrow>
                 userTokens (handleItemUpdated u s) =
                   (if Listing.quantity l = ItemUpdated.quantity u then userTokens s
                    else if held + (Listing.quantity l - ItemUpdated.quantity u) = 0
                         then (userTokens s)(key := None)
                         else (userTokens s)(key \<mapsto> (getOrCreateUserToken s key)
                                \<lparr>UserToken.quantity :=
                                   held + (Listing.quantity l - ItemUpdated.quantity u),
                                 UserToken.token := Listing.token l,
                                 UserToken.user := Listing.user l\<rparr>))
                 \<and> (userTokensPositive s
                      \<and> 0 \<le> held + (Listing.quantity l - ItemUpdated.quantity u)
                      \<longrightarrow> userTokensPositive (handleItemUpdated u s))"
  proof (cases "listings s ?key")
    case None
    then show ?thesis by (simp add: handleItemUpdated_absent)
  next
    case (Some l)
    show ?thesis
      using Some
      by (auto simp: userTokensPositive_def handleItemUpdated_userTokens [OF assms Some] Let_def
          split: if_splits)
  qed
next
  show "let key = getListingId (ItemSold.buyer d) (ItemSold.nftAddress d)
                      (ItemSold.tokenId d)
          in userTokens (handleItemSoldStaging d s) =
               (case userTokens s key of
                  None \<Rightarrow> userTokens s
                | Some t \<Rightarrow>
                    if ItemSold.quantity d = UserToken.quantity t
                    then (userTokens s)(key := None)
                    else (userTokens s)(key \<mapsto>
                           t\<lparr>UserToken.quantity := UserToken.quantity t - ItemSold.quantity d\<rparr>))
             \<and> (userTokensPositive s \<and> ItemSold.quantity d \<le> userTokenQuantity s key
                  \<longrightarrow> userTokensPositive (handleItemSoldStaging d s))"
    by (auto simp: userTokensPositive_def userTokenQuantity_def
        handleItemSoldStaging_userTokens [OF assms] Let_def split: if_splits option.splits)
next
  show "let key = getListingId (ItemCanceled.seller c) (ItemCanceled.nftAddress c)
                      (ItemCanceled.tokenId c);
              listing = getOrCreateListing s key;
              total = userTokenQuantity s key + Listing.quantity listing
          in userTokens (handleItemCanceled c s) =
               (userTokens s)(key \<mapsto> (getOrCreateUserToken s key)
                  \<lparr>UserToken.quantity := total, UserToken.token := Listing.token listing,
                   UserToken.user := Listing.user listing\<rparr>)
             \<and> (userTokensPositive s \<and> 0 < total
                  \<longrightarrow> userTokensPositive (handleItemCanceled c s))"
    by (auto simp: userTokensPositive_def handleItemCanceled_userTokens [OF assms] Let_def
        split: if_splits)
next
  show "userTokens (handleItemSold ex d s) = userTokens s"
    by (simp add: handleItemSold_def Let_def updateCollectionFloorAndTotal_frame
        saveListing_def removeListing_def)
qed

theorem userTokens_stay_positive_witness:
  "wellKeyed aliceHoldingStore \<and> userTokensPositive aliceHoldingStore
   \<and> userTokens (handleItemListed (aliceListed 10 10 300) aliceHoldingStore)
        (getListingId alice nft 1) = None
   \<and> map_option UserToken.quantity
        (userTokens (handleItemListed (aliceListed 3 10 300) aliceHoldingStore)
           (getListingId alice nft 1)) = Some 7
   \<and> userTokensPositive (handleItemListed (aliceListed 3 10 300) aliceHoldingStore)
   \<and> userTokens (handleItemUpdated (aliceUpdated 15 9 300) aliceHoldingStore)
        (getListingId alice nft 1) = None
   \<and> map_option UserToken.quantity
        (userTokens (handleItemUpdated (aliceUpdated 2 9 300) aliceHoldingStore)
           (getListingId alice nft 1)) = Some 13
   \<and> userTokensPositive (handleItemUpdated (aliceUpdated 2 9 300) aliceHoldingStore)
   \<and> userTokens (handleItemSoldStaging (aliceBought 10) aliceHoldingStore)
        (getListingId alice nft 1) = None
   \<and> map_option UserToken.quantity
        (userTokens (handleItemSoldStaging (aliceBought 3) aliceHoldingStore)
           (getListingId alice nft 1)) = Some 7
   \<and> userTokensPositive (handleItemSoldStaging (aliceBought 3) aliceHoldingStore)
   \<and> map_option UserToken.quantity
        (userTokens (handleItemCanceled aliceCanceled aliceHoldingStore)
           (getListingId alice nft 1)) = Some 15
   \<and> userTokensPositive (handleItemCanceled aliceCanceled aliceHoldingStore)"
proof -
  note zero = userTokens_stay_positive [OF wellKeyed_aliceHoldingStore,
                where e = "aliceListed 10 10 300" and u = "aliceUpdated 15 9 300"
                  and d = "aliceBought 10" and c = aliceCanceled and ex = explorer]
  note some = userTokens_stay_positive [OF wellKeyed_aliceHoldingStore,
                where e = "aliceListed 3 10 300" and u = "aliceUpdated 2 9 300"
                  and d = "aliceBought 3" and c = aliceCanceled and ex = explorer]
  have lq: "Listing.quantity (getOrCreateListing aliceHoldingStore (getListingId alice nft 1)) = 5"
      "Listing.quantity (exampleListing (getListingId alice nft 1) 9 5) = 5"
    by (simp_all add: getOrCreateListing_def aliceHoldingStore_alice exampleListing_def)
  have ut: "getOrCreateUserToken aliceHoldingStore (getListingId alice nft 1)
     = \<lparr>UserToken.id = getListingId alice nft 1, quantity = 10, token = getTokenId nft 1,
             user = toHexString alice\<rparr>"
    by (simp add: getOrCreateUserToken_def aliceHoldingStore_userToken)
  show ?thesis
    using zero some
    by (simp add: Let_def aliceListed_fields aliceUpdated_fields aliceCanceled_fields
        aliceBought_fields aliceHoldingStore_quantities aliceHoldingStore_alice
        aliceHoldingStore_userToken lq ut wellKeyed_aliceHoldingStore
        userTokensPositive_aliceHoldingStore)
qed

section \<open>The floor price\<close>

lemmas run_defs = activeListing_def owedTokens_def afterListing_def wiredListed_def
  wiredListedTwice_def wiredStore_def

lemma first_listing:
  "handleItemListed (aliceListed 5 9 100) emptyStore = afterListing"
  by (simp add: handleItemListed_def aliceListed_def run_defs eval_defs example_defs)

lemma wired_first_listing:
  "handleItemListed (aliceListed 5 7 100) wiredStore = wiredListed"
  by (simp add: handleItemListed_def aliceListed_def run_defs eval_defs example_defs)

lemma wired_second_listing:
  "handleItemListed (bobListed 1 9 101) wiredListed = wiredListedTwice"
  by (simp add: handleItemListed_def bobListed_def run_defs eval_defs example_defs)

lemma handleItemSold_active:
  assumes "wellKeyed s"
      and "listings (handleItemSold ex e s) k = Some l" and "Listing.status l = ''Active''"
  shows "\<exists>l0. listings s k = Some l0 \<and> Listing.status l0 = ''Active''
              \<and> Listing.collection l0 = Listing.collection l
              \<and> Listing.pricePerItem l0 = Listing.pricePerItem l"
  using assms(2,3)
  by (auto simp: handleItemSold_listings [OF assms(1)] Let_def getOrCreateListing_def
      ZERO_BI_def split: if_splits option.splits)

lemma floorCorrect_least:
  assumes "floorCorrect s" and "collections s cid = Some c" and "listings s k = Some l"
      and "Listing.status l = ''Active''" and "Listing.collection l = cid"
  shows "Collection.floorPrice c \<le> Listing.pricePerItem l"
proof -
  have a: "activeIn s cid l" using assms(3-5) by (auto simp: activeIn_def)
  then have "\<exists>l. activeIn s cid l" by blast
  then have "\<forall>l. activeIn s cid l \<longrightarrow> Collection.floorPrice c \<le> Listing.pricePerItem l"
    using assms(1,2) unfolding floorCorrect_def by (metis (no_types, lifting))
  then show ?thesis using a by blast
qed

lemma floorCorrect_attained:
  assumes "floorCorrect s" and "collections s cid = Some c" and "Collection.floorPrice c \<noteq> 0"
  shows "\<exists>k l. listings s k = Some l \<and> Listing.status l = ''Active''
               \<and> Listing.collection l = cid \<and> Listing.pricePerItem l = Collection.floorPrice c"
proof -
  have "if \<exists>l. activeIn s cid l
        then (\<exists>l. activeIn s cid l \<and> Listing.pricePerItem l = Collection.floorPrice c)
             \<and> (\<forall>l. activeIn s cid l \<longrightarrow> Collection.floorPrice c \<le> Listing.pricePerItem l)
        else Collection.floorPrice c = 0"
    using assms(1,2) unfolding floorCorrect_def by blast
  then have "\<exists>l. activeIn s cid l \<and> Listing.pricePerItem l = Collection.floorPrice c"
    using assms(3) by (auto split: if_splits)
  then show ?thesis by (auto simp: activeIn_def)
qed

lemma handleItemSold_key_full:
  assumes "wellKeyed s"
      and "listings s (getListingId (ItemSold.seller e) (ItemSold.nftAddress e)
                         (ItemSold.tokenId e)) = Some l"
      and "Listing.quantity l = ItemSold.quantity e"
  shows "listings (handleItemSold ex e s)
           (getListingId (ItemSold.seller e) (ItemSold.nftAddress e) (ItemSold.tokenId e)) = None"
  using assms(2,3)
  by (simp add: handleItemSold_listings [OF assms(1)] Let_def getOrCreateListing_def)

lemma wellKeyed_afterListing: "wellKeyed afterListing"
  by (simp add: wellKeyed_def run_defs)

lemma relisting_floor:
  "map_option Collection.floorPrice
     (collections (handleItemListed (aliceListed 4 12 300) afterListing) '''') = Some 9"
  by (simp add: handleItemListed_def aliceListed_def run_defs eval_defs example_defs)

lemma relisting_listings:
  "listings (handleItemListed (aliceListed 4 12 300) afterListing)
     = [getListingId alice nft 1 \<mapsto> activeListing alice '''' '''' 4 12 300]"
  by (simp add: handleItemListed_def aliceListed_def run_defs eval_defs example_defs)

lemma canceling_floor:
  "map_option Collection.floorPrice
     (collections (handleItemCanceled aliceCanceled afterListing) '''') = Some 9"
  by (simp add: handleItemCanceled_def aliceCanceled_def run_defs eval_defs example_defs)

lemma canceling_listings:
  "listings (handleItemCanceled aliceCanceled afterListing) = Map.empty"
  unfolding handleItemCanceled_listings [OF wellKeyed_afterListing] aliceCanceled_fields
  by (simp add: afterListing_def)

lemma updating_floor:
  "map_option Collection.floorPrice
     (collections (handleItemUpdated (aliceUpdated 5 12 200) afterListing) '''') = Some 9"
  by (simp add: handleItemUpdated_def aliceUpdated_def run_defs eval_defs example_defs)

lemma updating_listings:
  "listings (handleItemUpdated (aliceUpdated 5 12 200) afterListing)
     = [getListingId alice nft 1 \<mapsto> activeListing alice '''' '''' 5 12 200]"
  by (simp add: handleItemUpdated_def aliceUpdated_def run_defs eval_defs example_defs)

lemma selling_floor:
  "map_option Collection.floorPrice
     (collections (handleItemSold explorer (aliceSold 5 200 3) afterListing) '''') = Some 9"
  by (simp add: handleItemSold_def aliceSold_def run_defs eval_defs example_defs)

lemma selling_leaves_none_active:
  assumes "listings (handleItemSold explorer (aliceSold 5 200 3) afterListing) k = Some l"
  shows "Listing.status l \<noteq> ''Active''"
proof
  assume a: "Listing.status l = ''Active''"
  obtain l0 where l0: "listings afterListing k = Some l0"
    using handleItemSold_active [OF wellKeyed_afterListing assms a] by blast
  then have k: "k = getListingId alice nft 1"
    by (auto simp: afterListing_def split: if_splits)
  have "listings (handleItemSold explorer (aliceSold 5 200 3) afterListing)
          (getListingId alice nft 1) = None"
    using handleItemSold_key_full [OF wellKeyed_afterListing,
        of "aliceSold 5 200 3" "activeListing alice '''' '''' 5 9 100" explorer]
    by (simp add: aliceSold_fields afterListing_def activeListing_def)
  then show False using assms k by simp
qed

lemma zero_update_floor:
  "map_option Collection.floorPrice
     (collections (handleItemUpdated (aliceUpdated 5 0 200) wiredListedTwice) (toHexString nft))
   = Some 9"
  by (simp add: handleItemUpdated_def aliceUpdated_def run_defs eval_defs example_defs)

lemma zero_update_listing:
  "map_option (\<lambda>l. (Listing.status l, Listing.collection l, Listing.pricePerItem l))
     (listings (handleItemUpdated (aliceUpdated 5 0 200) wiredListedTwice)
        (getListingId alice nft 1))
   = Some (''Active'', toHexString nft, 0)"
  by (simp add: handleItemUpdated_def aliceUpdated_def run_defs eval_defs example_defs)

lemma first_zero_listing:
  "handleItemListed (aliceListed 1 0 100) emptyStore = afterZeroListing"
  by (simp add: handleItemListed_def aliceListed_def afterZeroListing_def eval_defs example_defs)

lemma second_listing_floor:
  "map_option Collection.floorPrice
     (collections (handleItemListed (bobListed 1 5 101) afterZeroListing) '''') = Some 5"
  by (simp add: handleItemListed_def bobListed_def afterZeroListing_def eval_defs example_defs)

lemma second_listing_keeps_first:
  "map_option (\<lambda>l. (Listing.status l, Listing.collection l, Listing.pricePerItem l))
     (listings (handleItemListed (bobListed 1 5 101) afterZeroListing) (getListingId alice nft 1))
   = Some (''Active'', '''', 0)"
  by (simp add: handleItemListed_def bobListed_def afterZeroListing_def eval_defs example_defs)

text \<open>
  C1.  The claim: after any sequence of list, update, cancel and sell events from the empty
  store, the floor of every collection is the least price of the stored Active listings
  that refer to it, or zero if there is none.  It fails in each of these runs.  The floor
  zero also stands for "no floor yet": after a listing at price zero, the next listing at
  price five sets the floor to five while the zero-priced listing is still Active.
  \<^verbatim>\<open>handleItemListed\<close> only lowers the floor: listing again under a key whose listing is
  Active, at twelve instead of nine, leaves the floor at nine.  A listing takes its
  collection from its token, and a token that is not stored refers to the collection with
  the empty id, while the recalculation after an update, a cancellation or a sale loads the
  collection stored under the address of the contract: from the empty store it finds none,
  so after a listing at price nine the floor stays nine when the listing is canceled, when
  it is repriced to twelve, and when it is sold in full.  The last run starts from the
  store that holds the token of the examples, referring to the collection of its contract,
  so that the recalculation reaches the collection: after listings at seven and nine, an
  update of the first to price zero leaves the floor at nine.
\<close>

theorem floor_not_least_active_price:
  "\<not> floorCorrect
       (processEvents explorer [Listed (aliceListed 1 0 100), Listed (bobListed 1 5 101)]
          emptyStore)
   \<and> \<not> floorCorrect
       (processEvents explorer [Listed (aliceListed 5 9 100), Listed (aliceListed 4 12 300)]
          emptyStore)
   \<and> \<not> floorCorrect
       (processEvents explorer [Listed (aliceListed 5 9 100), Canceled aliceCanceled]
          emptyStore)
   \<and> \<not> floorCorrect
       (processEvents explorer [Listed (aliceListed 5 9 100), Updated (aliceUpdated 5 12 200)]
          emptyStore)
   \<and> \<not> floorCorrect
       (processEvents explorer [Listed (aliceListed 5 9 100), Sold (aliceSold 5 200 3)]
          emptyStore)
   \<and> \<not> floorCorrect
       (processEvents explorer
          [Listed (aliceListed 5 7 100), Listed (bobListed 1 9 101),
           Updated (aliceUpdated 5 0 200)] wiredStore)"
proof -
  have zero: "\<not> floorCorrect (handleItemListed (bobListed 1 5 101) afterZeroListing)"
  proof
    let ?s = "handleItemListed (bobListed 1 5 101) afterZeroListing"
    assume fc: "floorCorrect ?s"
    obtain c where c: "collections ?s '''' = Some c" "Collection.floorPrice c = 5"
      using second_listing_floor by auto
    obtain l where l: "listings ?s (getListingId alice nft 1) = Some l"
        "Listing.status l = ''Active''" "Listing.collection l = ''''" "Listing.pricePerItem l = 0"
      using second_listing_keeps_first by auto
    show False using floorCorrect_least [OF fc c(1) l(1,2,3)] c(2) l(4) by simp
  qed
  have relist: "\<not> floorCorrect (handleItemListed (aliceListed 4 12 300) afterListing)"
  proof
    let ?s = "handleItemListed (aliceListed 4 12 300) afterListing"
    assume fc: "floorCorrect ?s"
    obtain c where c: "collections ?s '''' = Some c" "Collection.floorPrice c = 9"
      using relisting_floor by auto
    obtain k l where l: "listings ?s k = Some l" "Listing.pricePerItem l = 9"
      using floorCorrect_attained [OF fc c(1)] c(2) by auto
    then show False
      by (auto simp: relisting_listings activeListing_def split: if_splits)
  qed
  have cancel: "\<not> floorCorrect (handleItemCanceled aliceCanceled afterListing)"
  proof
    let ?s = "handleItemCanceled aliceCanceled afterListing"
    assume fc: "floorCorrect ?s"
    obtain c where c: "collections ?s '''' = Some c" "Collection.floorPrice c = 9"
      using canceling_floor by auto
    obtain k l where l: "listings ?s k = Some l"
      using floorCorrect_attained [OF fc c(1)] c(2) by auto
    then show False by (simp add: canceling_listings)
  qed
  have update: "\<not> floorCorrect (handleItemUpdated (aliceUpdated 5 12 200) afterListing)"
  proof
    let ?s = "handleItemUpdated (aliceUpdated 5 12 200) afterListing"
    assume fc: "floorCorrect ?s"
    obtain c where c: "collections ?s '''' = Some c" "Collection.floorPrice c = 9"
      using updating_floor by auto
    obtain k l where l: "listings ?s k = Some l" "Listing.pricePerItem l = 9"
      using floorCorrect_attained [OF fc c(1)] c(2) by auto
    then show False
      by (auto simp: updating_listings activeListing_def split: if_splits)
  qed
  have sale: "\<not> floorCorrect (handleItemSold explorer (aliceSold 5 200 3) afterListing)"
  proof
    let ?s = "handleItemSold explorer (aliceSold 5 200 3) afterListing"
    assume fc: "floorCorrect ?s"
    obtain c where c: "collections ?s '''' = Some c" "Collection.floorPrice c = 9"
      using selling_floor by auto
    obtain k l where l: "listings ?s k = Some l" "Listing.status l = ''Active''"
      using floorCorrect_attained [OF fc c(1)] c(2) by auto
    then show False using selling_leaves_none_active by blast
  qed
  have free: "\<not> floorCorrect (handleItemUpdated (aliceUpdated 5 0 200) wiredListedTwice)"
  proof
    let ?s = "handleItemUpdated (aliceUpdated 5 0 200) wiredListedTwice"
    assume fc: "floorCorrect ?s"
    obtain c where c: "collections ?s (toHexString nft) = Some c" "Collection.floorPrice c = 9"
      using zero_update_floor by auto
    obtain l where l: "listings ?s (getListingId alice nft 1) = Some l"
        "Listing.status l = ''Active''" "Listing.collection l = toHexString nft"
        "Listing.pricePerItem l = 0"
      using zero_update_listing by auto
    show False using floorCorrect_least [OF fc c(1) l(1,2,3)] c(2) l(4) by simp
  qed
  show ?thesis
    using zero relist cancel update sale free
    by (simp add: first_zero_listing first_listing wired_first_listing wired_second_listing)
qed

section \<open>The floor invariant\<close>

lemma lt16_cases: "n < (16::nat) \<Longrightarrow> n \<in> {0,1,2,3,4,5,6,7,8,9,10,11,12,13,14,15}"
  by simp arith

lemma hexDigit_16_not_minus: "n < 16 \<Longrightarrow> hexDigit n \<noteq> CHR ''-''"
  using lt16_cases [of n] by (auto simp: hexDigit_def)

lemma no_minus_hexByte: "CHR ''-'' \<notin> set (hexByte b)"
proof -
  have "unat b < 256" using unsigned_less [of b] by simp
  then have "unat b div 16 < 16" by simp
  moreover have "unat b mod 16 < 16" by simp
  ultimately show ?thesis
    using hexDigit_16_not_minus [of "unat b div 16"] hexDigit_16_not_minus [of "unat b mod 16"]
    by (auto simp: hexByte_def)
qed

lemma no_minus_toHexString: "CHR ''-'' \<notin> set (toHexString bs)"
  using no_minus_hexByte by (auto simp: toHexString_def)

lemma split_at_minus:
  assumes "CHR ''-'' \<notin> set a" and "CHR ''-'' \<notin> set a'"
      and "a @ CHR ''-'' # r = a' @ CHR ''-'' # r'"
  shows "a = a' \<and> r = r'"
proof -
  have "takeWhile (\<lambda>c. c \<noteq> CHR ''-'') (a @ CHR ''-'' # r) = a"
    using assms(1) by (auto simp: takeWhile_tail)
  moreover have "takeWhile (\<lambda>c. c \<noteq> CHR ''-'') (a' @ CHR ''-'' # r') = a'"
    using assms(2) by (auto simp: takeWhile_tail)
  ultimately have "a = a'" using assms(3) by simp
  then show ?thesis using assms(3) by simp
qed

lemma natToString_nonempty: "natToString n \<noteq> []"
  by (subst natToString.simps) simp

lemma bigIntToString_nonempty: "bigIntToString i \<noteq> []"
  by (simp add: bigIntToString_def natToString_nonempty)

lemma bigIntToString_tail: "CHR ''-'' \<notin> set (tl (bigIntToString i))"
proof (cases "i < 0")
  case True
  then show ?thesis by (simp add: bigIntToString_def natToString_no_minus)
next
  case False
  have "set (tl (natToString (nat i))) \<subseteq> set (natToString (nat i))"
    by (cases "natToString (nat i)") auto
  then show ?thesis using False natToString_no_minus [of "nat i"]
    by (auto simp: bigIntToString_def)
qed

lemma getListingId_contract:
  assumes "getListingId sel adr tid = getListingId sel' adr' tid'"
  shows "toHexString adr = toHexString adr'"
proof -
  have one: "toHexString sel = toHexString sel'
      \<and> toHexString adr @ CHR ''-'' # bigIntToString tid
          = toHexString adr' @ CHR ''-'' # bigIntToString tid'"
    using assms split_at_minus [OF no_minus_toHexString no_minus_toHexString]
    by (simp add: getListingId_def)
  then show ?thesis
    using split_at_minus [OF no_minus_toHexString no_minus_toHexString] by blast
qed

lemma suffixed_key_not_derived:
  "getListingId sel adr tid @ ''-'' @ bigIntToString n \<noteq> getListingId sel' adr' tid'"
proof
  assume eq: "getListingId sel adr tid @ ''-'' @ bigIntToString n = getListingId sel' adr' tid'"
  have one: "toHexString adr @ CHR ''-'' # bigIntToString tid @ CHR ''-'' # bigIntToString n
          = toHexString adr' @ CHR ''-'' # bigIntToString tid'"
    using eq split_at_minus [OF no_minus_toHexString no_minus_toHexString,
        of sel "toHexString adr @ CHR ''-'' # bigIntToString tid @ CHR ''-'' # bigIntToString n"
           sel' "toHexString adr' @ CHR ''-'' # bigIntToString tid'"]
    by (simp add: getListingId_def)
  have two: "bigIntToString tid @ CHR ''-'' # bigIntToString n = bigIntToString tid'"
    using one split_at_minus [OF no_minus_toHexString no_minus_toHexString] by blast
  have "tl (bigIntToString tid') = tl (bigIntToString tid @ CHR ''-'' # bigIntToString n)"
    using two by simp
  then have "tl (bigIntToString tid') = tl (bigIntToString tid) @ CHR ''-'' # bigIntToString n"
    by (simp add: bigIntToString_nonempty)
  then have "CHR ''-'' \<in> set (tl (bigIntToString tid'))" by simp
  then show False using bigIntToString_tail by blast
qed

lemma scanStep_alive:
  "alive s k \<Longrightarrow> listingIds (fst (scanStep s k i st)) = listingIds (fst st)"
  by (auto simp: alive_def scanStep_def Let_def)

lemma scanStep_dead:
  "\<not> alive s k \<Longrightarrow> listingIds (fst (scanStep s k i st))
     = take i (listingIds (fst st)) @ drop (i + 1) (listingIds (fst st))"
  by (auto simp: alive_def scanStep_def Let_def split: option.splits)

lemma scanListings_all_alive:
  "\<forall>k\<in>set ks. alive s k \<Longrightarrow> listingIds (fst (scanListings s ks i st)) = listingIds (fst st)"
  by (induction ks arbitrary: i st) (simp_all add: scanStep_alive)

lemma scanListings_one_dead:
  assumes "listingIds (fst st) = pre @ ks" and "i = length pre"
      and "\<forall>k\<in>set ks. k \<noteq> key \<longrightarrow> alive s k" and "distinct ks"
  shows "listingIds (fst (scanListings s ks i st)) = pre @ filter (alive s) ks"
  using assms
proof (induction ks arbitrary: pre i st)
  case Nil
  then show ?case by simp
next
  case (Cons k ks)
  show ?case
  proof (cases "alive s k")
    case True
    have "listingIds (fst (scanStep s k i st)) = (pre @ [k]) @ ks"
      using True Cons.prems(1) by (simp add: scanStep_alive)
    then have "listingIds (fst (scanListings s ks (i + 1) (scanStep s k i st)))
                 = (pre @ [k]) @ filter (alive s) ks"
      using Cons.prems by (intro Cons.IH) simp_all
    then show ?thesis using True by simp
  next
    case False
    then have "k = key" using Cons.prems(3) by auto
    then have rest: "\<forall>k'\<in>set ks. alive s k'" using Cons.prems(3,4) by auto
    have "listingIds (fst (scanStep s k i st)) = pre @ ks"
      using False Cons.prems(1,2) by (simp add: scanStep_dead)
    then have "listingIds (fst (scanListings s ks (i + 1) (scanStep s k i st))) = pre @ ks"
      using rest by (simp add: scanListings_all_alive)
    moreover have "filter (alive s) ks = ks" using rest by simp
    ultimately show ?thesis using False by simp
  qed
qed

lemma activePrices_same:
  "\<forall>k\<in>set ks. listings s' k = listings s k \<Longrightarrow> activePrices s' ks = activePrices s ks"
  by (induction ks) (simp_all add: activePrices_def)

lemma activePrices_filter_alive: "activePrices s (filter (alive s) ks) = activePrices s ks"
  by (induction ks) (auto simp: activePrices_def alive_def split: option.splits)

lemma activePrices_append: "activePrices s (ks @ ks') = activePrices s ks @ activePrices s ks'"
  by (simp add: activePrices_def)

lemma activePrices_single:
  "set (activePrices s [k]) =
     {p. \<exists>l. listings s k = Some l \<and> Listing.status l = ''Active'' \<and> Listing.pricePerItem l = p}"
  by (cases "listings s k") (auto simp: activePrices_def)

lemma activePrices_member:
  "p \<in> set (activePrices s ks) \<longleftrightarrow>
     (\<exists>k\<in>set ks. \<exists>l. listings s k = Some l \<and> Listing.status l = ''Active''
                       \<and> Listing.pricePerItem l = p)"
proof (induction ks)
  case Nil
  show ?case by (simp add: activePrices_def)
next
  case (Cons k ks)
  have "set (activePrices s (k # ks)) = set (activePrices s [k]) \<union> set (activePrices s ks)"
    by (simp add: activePrices_Cons [of s k ks])
  then show ?case using Cons.IH by (auto simp: activePrices_single)
qed

lemma recalculation_result:
  assumes "collections s (toHexString addr) = Some c"
      and "Collection.id c = toHexString addr"
      and "distinct (listingIds c)"
      and "\<forall>k\<in>set (listingIds c). k \<noteq> key \<longrightarrow> alive s k"
      and "0 \<notin> set (activePrices s (listingIds c))"
  shows "\<exists>c'. collections (updateCollectionFloorAndTotal addr s)
                 = (collections s)(toHexString addr \<mapsto> c')
             \<and> listingIds c' = filter (alive s) (listingIds c)
             \<and> Collection.floorPrice c' = floorOf s (listingIds c)"
proof -
  let ?st = "(c\<lparr>Collection.floorPrice := ZERO_BI\<rparr>, [] :: (string \<times> int) list)"
  have ids: "listingIds (fst (scanListings s (listingIds c) 0 ?st))
               = filter (alive s) (listingIds c)"
    using scanListings_one_dead [of ?st "[]" "listingIds c" 0 key s] assms(3,4) by simp
  have fl: "Collection.floorPrice (fst (scanListings s (listingIds c) 0 ?st))
               = floorOf s (listingIds c)"
    using assms(5) by (simp add: scanListings_floor ZERO_BI_def foldl_lowerFloor_zero floorOf_def)
  let ?scanned = "fst (scanListings s (listingIds c) 0 ?st)"
  let ?c' = "?scanned\<lparr>totalListings := int (length (listingIds ?scanned))\<rparr>"
  have "collections (updateCollectionFloorAndTotal addr s)
          = (collections s)(toHexString addr \<mapsto> ?c')"
    using assms(1,2)
    by (simp add: updateCollectionFloorAndTotal_def saveCollection_def Let_def scanListings_id
        saveTokenFloors_frame)
  then show ?thesis using ids fl by (intro exI [of _ ?c']) simp
qed

lemma floorOf_same:
  "\<forall>k\<in>set ks. listings s' k = listings s k \<Longrightarrow> floorOf s' ks = floorOf s ks"
  using activePrices_same [of ks s' s] by (simp add: floorOf_def)

lemma floorInvariant_floorCorrect:
  assumes "floorInvariant s"
  shows "floorCorrect s"
  unfolding floorCorrect_def
proof (intro allI impI)
  fix cid c
  assume c: "collections s cid = Some c"
  have li: "listingsIndexed s" and ie: "indexesExact s"
    using assms by (simp_all add: floorInvariant_def)
  have entries: "\<forall>k\<in>set (listingIds c).
              \<exists>l. listings s k = Some l \<and> Listing.status l = ''Active''
                  \<and> Listing.collection l = cid"
    and fl: "Collection.floorPrice c = floorOf s (listingIds c)"
    using ie c by (auto simp: indexesExact_def)
  have mem: "\<And>p. p \<in> set (activePrices s (listingIds c))
               \<longleftrightarrow> (\<exists>l. activeIn s cid l \<and> Listing.pricePerItem l = p)"
  proof
    fix p
    assume "p \<in> set (activePrices s (listingIds c))"
    then obtain k l where "k \<in> set (listingIds c)" "listings s k = Some l"
        "Listing.status l = ''Active''" "Listing.pricePerItem l = p"
      by (auto simp: activePrices_member)
    moreover then have "Listing.collection l = cid" using entries by fastforce
    ultimately show "\<exists>l. activeIn s cid l \<and> Listing.pricePerItem l = p"
      by (auto simp: activeIn_def)
  next
    fix p
    assume "\<exists>l. activeIn s cid l \<and> Listing.pricePerItem l = p"
    then obtain k l where l: "listings s k = Some l" "Listing.status l = ''Active''"
        "Listing.collection l = cid" "Listing.pricePerItem l = p"
      by (auto simp: activeIn_def)
    then have "\<exists>c'. collections s cid = Some c' \<and> k \<in> set (listingIds c')"
      using li unfolding listingsIndexed_def by blast
    then have "k \<in> set (listingIds c)" using c by auto
    then show "p \<in> set (activePrices s (listingIds c))"
      using l by (auto simp: activePrices_member)
  qed
  show "if \<exists>l. activeIn s cid l
        then (\<exists>l. activeIn s cid l \<and> Listing.pricePerItem l = Collection.floorPrice c)
             \<and> (\<forall>l. activeIn s cid l \<longrightarrow> Collection.floorPrice c \<le> Listing.pricePerItem l)
        else Collection.floorPrice c = 0"
  proof (cases "\<exists>l. activeIn s cid l")
    case True
    then have ne: "activePrices s (listingIds c) \<noteq> []" using mem by fastforce
    then have f: "Collection.floorPrice c = Min (set (activePrices s (listingIds c)))"
      using fl by (simp add: floorOf_def)
    have "Min (set (activePrices s (listingIds c))) \<in> set (activePrices s (listingIds c))"
      using ne by (intro Min_in) simp_all
    then have one: "\<exists>l. activeIn s cid l \<and> Listing.pricePerItem l = Collection.floorPrice c"
      using mem f by simp
    have two: "\<forall>l. activeIn s cid l \<longrightarrow> Collection.floorPrice c \<le> Listing.pricePerItem l"
    proof (intro allI impI)
      fix l
      assume "activeIn s cid l"
      then have "Listing.pricePerItem l \<in> set (activePrices s (listingIds c))"
        using mem by blast
      then show "Collection.floorPrice c \<le> Listing.pricePerItem l"
        using f by simp
    qed
    show ?thesis using True one two by simp
  next
    case False
    then have "activePrices s (listingIds c) = []"
      using mem by (cases "activePrices s (listingIds c)") (auto simp del: mem)
    then show ?thesis using False fl by (simp add: floorOf_def)
  qed
qed

lemma no_zero_price:
  assumes "\<forall>k l. listings s k = Some l \<and> Listing.status l = ''Active''
              \<longrightarrow> Listing.pricePerItem l \<noteq> 0"
  shows "0 \<notin> set (activePrices s ks)"
  using assms by (auto simp: activePrices_member)

lemma activePrices_cong_keys:
  "\<forall>k\<in>set ks. activePrices s' [k] = activePrices s [k]
     \<Longrightarrow> activePrices s' ks = activePrices s ks"
  by (induction ks) (simp_all add: activePrices_def)

lemma recalculation_restores:
  assumes inv: "floorInvariant s"
      and wk: "wellKeyed s'"
      and cols: "collections s' = collections s"
      and act: "\<forall>k l. listings s' k = Some l \<and> Listing.status l = ''Active'' \<longrightarrow>
                  Listing.pricePerItem l \<noteq> 0
                  \<and> (\<exists>l0. listings s k = Some l0 \<and> Listing.status l0 = ''Active''
                           \<and> Listing.collection l0 = Listing.collection l)"
      and oth: "\<forall>k l0. listings s k = Some l0 \<and> Listing.status l0 = ''Active''
                  \<and> \<not> (k = key \<and> Listing.collection l0 = toHexString adr) \<longrightarrow>
                  (\<exists>l. listings s' k = Some l \<and> Listing.status l = ''Active''
                       \<and> Listing.collection l = Listing.collection l0
                       \<and> Listing.pricePerItem l = Listing.pricePerItem l0)"
  shows "floorInvariant (updateCollectionFloorAndTotal adr s')"
proof -
  let ?cid = "toHexString adr"
  let ?t = "updateCollectionFloorAndTotal adr s'"
  have li: "listingsIndexed s" and ie: "indexesExact s" and wks: "wellKeyed s"
    using inv by (simp_all add: floorInvariant_def)
  have L: "listings ?t = listings s'" by (simp add: updateCollectionFloorAndTotal_frame)
  have wkt: "wellKeyed ?t" using wk by (rule wellKeyed_updateCollectionFloorAndTotal)
  have entry: "\<exists>l l0. listings s' k = Some l \<and> listings s k = Some l0
                  \<and> Listing.status l = ''Active'' \<and> Listing.status l0 = ''Active''
                  \<and> Listing.collection l = cid
                  \<and> Listing.pricePerItem l = Listing.pricePerItem l0"
    if pc: "collections s cid = Some c" and pk: "k \<in> set (listingIds c)"
      and pn: "k \<noteq> key \<or> cid \<noteq> ?cid" for cid c k
  proof -
    obtain l0 where l0: "listings s k = Some l0" "Listing.status l0 = ''Active''"
        "Listing.collection l0 = cid"
      using ie pc pk unfolding indexesExact_def by blast
    have "\<not> (k = key \<and> Listing.collection l0 = ?cid)" using pn l0(3) by blast
    then obtain l where "listings s' k = Some l" "Listing.status l = ''Active''"
        "Listing.collection l = Listing.collection l0"
        "Listing.pricePerItem l = Listing.pricePerItem l0"
      using oth l0(1,2) by blast
    then show ?thesis using l0 by simp
  qed
  have same_prices: "activePrices s' (listingIds c) = activePrices s (listingIds c)"
    if pc: "collections s cid = Some c" and pn: "cid \<noteq> ?cid" for cid c
  proof (rule activePrices_cong_keys, rule ballI)
    fix k
    assume "k \<in> set (listingIds c)"
    then obtain l l0 where "listings s' k = Some l" "listings s k = Some l0"
        "Listing.status l = ''Active''" "Listing.status l0 = ''Active''"
        "Listing.pricePerItem l = Listing.pricePerItem l0"
      using entry [OF pc] pn by blast
    then show "activePrices s' [k] = activePrices s [k]" by (simp add: activePrices_def)
  qed
  have nz: "0 \<notin> set (activePrices s' ks)" for ks
    using act by (intro no_zero_price) blast
  have other: "distinct (listingIds c)
        \<and> (\<forall>k\<in>set (listingIds c).
              \<exists>l. listings s' k = Some l \<and> Listing.status l = ''Active''
                  \<and> Listing.collection l = cid)
        \<and> Collection.floorPrice c = floorOf s' (listingIds c)"
    if pc: "collections s cid = Some c" and pn: "cid \<noteq> ?cid" for cid c
  proof -
    have "distinct (listingIds c)" "Collection.floorPrice c = floorOf s (listingIds c)"
      using ie pc unfolding indexesExact_def by blast+
    moreover have "floorOf s' (listingIds c) = floorOf s (listingIds c)"
      using same_prices [OF pc pn] by (simp add: floorOf_def)
    moreover have "\<forall>k\<in>set (listingIds c).
              \<exists>l. listings s' k = Some l \<and> Listing.status l = ''Active''
                  \<and> Listing.collection l = cid"
      using entry [OF pc] pn by blast
    ultimately show ?thesis by simp
  qed
  have indexed0: "Listing.pricePerItem l \<noteq> 0
        \<and> (\<exists>sel adr tid. k = getListingId sel adr tid)
        \<and> (\<exists>c. collections s (Listing.collection l) = Some c \<and> k \<in> set (listingIds c))"
    if pl: "listings s' k = Some l" and pa: "Listing.status l = ''Active''" for k l
  proof -
    obtain l0 where l0: "listings s k = Some l0" "Listing.status l0 = ''Active''"
        "Listing.collection l0 = Listing.collection l" and p: "Listing.pricePerItem l \<noteq> 0"
      using act pl pa by blast
    show ?thesis using li l0 p unfolding listingsIndexed_def by metis
  qed
  show ?thesis
  proof (cases "collections s ?cid")
    case None
    then have same: "?t = s'" using cols by (simp add: updateCollectionFloorAndTotal_def)
    have "listingsIndexed s'"
      unfolding listingsIndexed_def cols using indexed0 by blast
    moreover have "indexesExact s'"
      unfolding indexesExact_def cols using other None by (metis option.distinct(1))
    ultimately show ?thesis using wk same by (simp add: floorInvariant_def)
  next
    case (Some c)
    have idc: "Collection.id c = ?cid" using wks Some by (auto simp: wellKeyed_def)
    have dist: "distinct (listingIds c)" using ie Some unfolding indexesExact_def by blast
    have dead: "\<forall>k\<in>set (listingIds c). k \<noteq> key \<longrightarrow> alive s' k"
    proof (intro ballI impI)
      fix k
      assume "k \<in> set (listingIds c)" and "k \<noteq> key"
      then show "alive s' k" using entry [OF Some, of k] by (auto simp: alive_def)
    qed
    obtain c' where c': "collections ?t = (collections s')(?cid \<mapsto> c')"
        "listingIds c' = filter (alive s') (listingIds c)"
        "Collection.floorPrice c' = floorOf s' (listingIds c)"
      using recalculation_result [of s' adr c key] Some cols idc dist dead nz by auto
    have indexed: "listingsIndexed ?t"
      unfolding listingsIndexed_def
    proof (intro allI impI)
      fix k l
      assume "listings ?t k = Some l \<and> Listing.status l = ''Active''"
      then have kl: "listings s' k = Some l" "Listing.status l = ''Active''" using L by simp_all
      obtain c0 where c0: "collections s (Listing.collection l) = Some c0"
          "k \<in> set (listingIds c0)"
        using indexed0 [OF kl] by blast
      have "\<exists>c. collections ?t (Listing.collection l) = Some c \<and> k \<in> set (listingIds c)"
      proof (cases "Listing.collection l = ?cid")
        case True
        then have "c0 = c" using c0 Some by simp
        then have "k \<in> set (listingIds c')" using c0 c'(2) kl by (simp add: alive_def)
        then show ?thesis using True c'(1) by simp
      next
        case False
        then show ?thesis using c0 c'(1) cols by simp
      qed
      then show "Listing.pricePerItem l \<noteq> 0
        \<and> (\<exists>sel adr tid. k = getListingId sel adr tid)
        \<and> (\<exists>c. collections ?t (Listing.collection l) = Some c \<and> k \<in> set (listingIds c))"
        using indexed0 [OF kl] by blast
    qed
    have exact: "indexesExact ?t"
      unfolding indexesExact_def
    proof (intro allI impI)
      fix cid d
      assume d: "collections ?t cid = Some d"
      show "distinct (listingIds d)
        \<and> (\<forall>k\<in>set (listingIds d).
              \<exists>l. listings ?t k = Some l \<and> Listing.status l = ''Active''
                  \<and> Listing.collection l = cid)
        \<and> Collection.floorPrice d = floorOf ?t (listingIds d)"
      proof (cases "cid = ?cid")
        case True
        then have dc: "d = c'" using d c'(1) by simp
        have one: "distinct (listingIds c')" using dist c'(2) by simp
        have two: "\<forall>k\<in>set (listingIds c').
              \<exists>l. listings ?t k = Some l \<and> Listing.status l = ''Active''
                  \<and> Listing.collection l = ?cid"
        proof
          fix k
          assume "k \<in> set (listingIds c')"
          then have k: "k \<in> set (listingIds c)" "alive s' k" using c'(2) by simp_all
          then obtain l where l: "listings s' k = Some l" "Listing.status l = ''Active''"
            by (auto simp: alive_def)
          obtain l0 where l0: "listings s k = Some l0"
              "Listing.collection l0 = Listing.collection l"
            using act l by blast
          have "Listing.collection l0 = ?cid"
            using ie Some k(1) l0(1) unfolding indexesExact_def by fastforce
          then show "\<exists>l. listings ?t k = Some l \<and> Listing.status l = ''Active''
                  \<and> Listing.collection l = ?cid"
            using l l0 L by simp
        qed
        have "floorOf ?t (listingIds c') = floorOf s' (listingIds c')"
          using L by (intro floorOf_same) simp
        also have "\<dots> = floorOf s' (listingIds c)"
          by (simp add: floorOf_def c'(2) activePrices_filter_alive)
        finally have three: "Collection.floorPrice c' = floorOf ?t (listingIds c')"
          using c'(3) by simp
        show ?thesis using dc True one two three by simp
      next
        case False
        then have ds: "collections s cid = Some d" using d c'(1) cols by simp
        have "floorOf ?t (listingIds d) = floorOf s' (listingIds d)"
          using L by (intro floorOf_same) simp
        then show ?thesis using other [OF ds False] L by simp
      qed
    qed
    show ?thesis using wkt indexed exact by (simp add: floorInvariant_def)
  qed
qed

lemma handleItemCanceled_stage:
  assumes "wellKeyed s"
  shows "\<exists>s'. handleItemCanceled e s = updateCollectionFloorAndTotal (ItemCanceled.nftAddress e) s'
           \<and> wellKeyed s' \<and> collections s' = collections s
           \<and> listings s' = (listings s)(getListingId (ItemCanceled.seller e)
                (ItemCanceled.nftAddress e) (ItemCanceled.tokenId e) := None)"
  unfolding handleItemCanceled_def Let_def isNull_def if_False
  apply (intro exI conjI)
     apply (rule refl)
    apply (simp add: wellKeyed_ops assms)
   apply (simp add: saveUserToken_def removeListing_def)
  apply (simp add: saveUserToken_def removeListing_def getOrCreateListing_id [OF assms])
  done

lemma handleItemSold_stage:
  assumes "wellKeyed s"
  shows "\<exists>s'. handleItemSold ex e s = updateCollectionFloorAndTotal (ItemSold.nftAddress e) s'
           \<and> wellKeyed s' \<and> collections s' = collections s"
  unfolding handleItemSold_def Let_def isNull_def if_False
  apply (intro exI conjI)
    apply (rule refl)
   apply (simp add: wellKeyed_ops assms)
  apply (simp add: saveListing_def removeListing_def)
  done

lemma handleItemUpdated_stage:
  assumes "wellKeyed s"
      and "listings s (getListingId (ItemUpdated.seller e) (ItemUpdated.nftAddress e)
                         (ItemUpdated.tokenId e)) = Some l"
  shows "\<exists>s'. handleItemUpdated e s = updateCollectionFloorAndTotal (ItemUpdated.nftAddress e) s'
           \<and> wellKeyed s' \<and> collections s' = collections s"
  unfolding handleItemUpdated_def Let_def assms(2) option.case
  apply (intro exI conjI)
    apply (rule refl)
   apply (simp add: wellKeyed_ops assms)
  apply (simp add: saveListing_def saveUserToken_def removeUserToken_def)
  done

lemma floorInvariant_handleItemCanceled:
  assumes "floorInvariant s" and acc: "accepts s (Canceled e)"
  shows "floorInvariant (handleItemCanceled e s)"
proof -
  let ?key = "getListingId (ItemCanceled.seller e) (ItemCanceled.nftAddress e)
                (ItemCanceled.tokenId e)"
  have wk: "wellKeyed s" and li: "listingsIndexed s"
    using assms by (simp_all add: floorInvariant_def)
  obtain s' where s': "handleItemCanceled e s
        = updateCollectionFloorAndTotal (ItemCanceled.nftAddress e) s'"
      "wellKeyed s'" "collections s' = collections s" "listings s' = (listings s)(?key := None)"
    using handleItemCanceled_stage [OF wk] by blast
  have act: "\<forall>k l. listings s' k = Some l \<and> Listing.status l = ''Active'' \<longrightarrow>
                  Listing.pricePerItem l \<noteq> 0
                  \<and> (\<exists>l0. listings s k = Some l0 \<and> Listing.status l0 = ''Active''
                           \<and> Listing.collection l0 = Listing.collection l)"
    using li s'(4) unfolding listingsIndexed_def by (auto split: if_splits)
  have oth: "\<forall>k l0. listings s k = Some l0 \<and> Listing.status l0 = ''Active''
                  \<and> \<not> (k = ?key
                        \<and> Listing.collection l0 = toHexString (ItemCanceled.nftAddress e)) \<longrightarrow>
                  (\<exists>l. listings s' k = Some l \<and> Listing.status l = ''Active''
                       \<and> Listing.collection l = Listing.collection l0
                       \<and> Listing.pricePerItem l = Listing.pricePerItem l0)"
  proof (intro allI impI)
    fix k l0
    assume a: "listings s k = Some l0 \<and> Listing.status l0 = ''Active''
                  \<and> \<not> (k = ?key
                        \<and> Listing.collection l0 = toHexString (ItemCanceled.nftAddress e))"
    then have "k \<noteq> ?key" using acc by auto
    then have "listings s' k = Some l0" using a s'(4) by simp
    then show "\<exists>l. listings s' k = Some l \<and> Listing.status l = ''Active''
                       \<and> Listing.collection l = Listing.collection l0
                       \<and> Listing.pricePerItem l = Listing.pricePerItem l0"
      using a by simp
  qed
  show ?thesis
    using recalculation_restores [OF assms(1) s'(2,3) act oth] s'(1) by simp
qed

lemma floorInvariant_handleItemUpdated:
  assumes "floorInvariant s" and acc: "accepts s (Updated e)"
  shows "floorInvariant (handleItemUpdated e s)"
proof (cases "listings s (getListingId (ItemUpdated.seller e) (ItemUpdated.nftAddress e)
                (ItemUpdated.tokenId e))")
  case None
  then show ?thesis using assms(1) by (simp add: handleItemUpdated_absent)
next
  case (Some l)
  let ?key = "getListingId (ItemUpdated.seller e) (ItemUpdated.nftAddress e)
                (ItemUpdated.tokenId e)"
  have wk: "wellKeyed s" and li: "listingsIndexed s"
    using assms by (simp_all add: floorInvariant_def)
  have price: "ItemUpdated.pricePerItem e \<noteq> 0" using acc by simp
  obtain s' where s': "handleItemUpdated e s
        = updateCollectionFloorAndTotal (ItemUpdated.nftAddress e) s'"
      "wellKeyed s'" "collections s' = collections s"
    using handleItemUpdated_stage [OF wk Some] by blast
  have L: "listings s' = listings (handleItemUpdated e s)"
    by (simp add: s'(1) updateCollectionFloorAndTotal_frame)
  note upd = handleItemUpdated_listings [OF wk Some]
  have act: "\<forall>k l. listings s' k = Some l \<and> Listing.status l = ''Active'' \<longrightarrow>
                  Listing.pricePerItem l \<noteq> 0
                  \<and> (\<exists>l0. listings s k = Some l0 \<and> Listing.status l0 = ''Active''
                           \<and> Listing.collection l0 = Listing.collection l)"
    using li Some price unfolding listingsIndexed_def L upd by (auto split: if_splits)
  have oth: "\<forall>k l0. listings s k = Some l0 \<and> Listing.status l0 = ''Active''
                  \<and> \<not> (k = ?key
                        \<and> Listing.collection l0 = toHexString (ItemUpdated.nftAddress e)) \<longrightarrow>
                  (\<exists>l. listings s' k = Some l \<and> Listing.status l = ''Active''
                       \<and> Listing.collection l = Listing.collection l0
                       \<and> Listing.pricePerItem l = Listing.pricePerItem l0)"
  proof (intro allI impI)
    fix k l0
    assume a: "listings s k = Some l0 \<and> Listing.status l0 = ''Active''
                  \<and> \<not> (k = ?key
                        \<and> Listing.collection l0 = toHexString (ItemUpdated.nftAddress e))"
    show "\<exists>l. listings s' k = Some l \<and> Listing.status l = ''Active''
                       \<and> Listing.collection l = Listing.collection l0
                       \<and> Listing.pricePerItem l = Listing.pricePerItem l0"
    proof (cases "k = ?key")
      case True
      then have l0: "l0 = l" using a Some by simp
      then have "Listing.pricePerItem l = ItemUpdated.pricePerItem e"
        using a acc Some True by auto
      then show ?thesis using a l0 True unfolding L upd by simp
    next
      case False
      then show ?thesis using a unfolding L upd by simp
    qed
  qed
  show ?thesis
    using recalculation_restores [OF assms(1) s'(2,3) act oth] s'(1) by simp
qed

lemma handleItemSold_other:
  assumes "wellKeyed s"
      and "k \<noteq> getListingId (ItemSold.seller e) (ItemSold.nftAddress e) (ItemSold.tokenId e)"
      and "\<And>n. k \<noteq> getListingId (ItemSold.seller e) (ItemSold.nftAddress e)
                       (ItemSold.tokenId e) @ ''-'' @ bigIntToString n"
  shows "listings (handleItemSold ex e s) k = listings s k"
  using assms(2,3)
  by (auto simp: handleItemSold_listings [OF assms(1)] Let_def)

lemma handleItemSold_key:
  assumes "wellKeyed s"
      and "listings s (getListingId (ItemSold.seller e) (ItemSold.nftAddress e)
                         (ItemSold.tokenId e)) = Some l"
      and "Listing.quantity l \<noteq> ItemSold.quantity e"
  shows "listings (handleItemSold ex e s)
           (getListingId (ItemSold.seller e) (ItemSold.nftAddress e) (ItemSold.tokenId e))
         = Some (l\<lparr>Listing.quantity := Listing.quantity l - ItemSold.quantity e\<rparr>)"
  using assms(2,3)
  by (simp add: handleItemSold_listings [OF assms(1)] Let_def getOrCreateListing_def)

lemma floorInvariant_handleItemSold:
  assumes "floorInvariant s" and acc: "accepts s (Sold e)"
  shows "floorInvariant (handleItemSold ex e s)"
proof -
  let ?key = "getListingId (ItemSold.seller e) (ItemSold.nftAddress e) (ItemSold.tokenId e)"
  have wk: "wellKeyed s" and li: "listingsIndexed s"
    using assms by (simp_all add: floorInvariant_def)
  obtain s' where s': "handleItemSold ex e s
        = updateCollectionFloorAndTotal (ItemSold.nftAddress e) s'"
      "wellKeyed s'" "collections s' = collections s"
    using handleItemSold_stage [OF wk] by blast
  have L: "listings s' = listings (handleItemSold ex e s)"
    by (simp add: s'(1) updateCollectionFloorAndTotal_frame)
  have act: "\<forall>k l. listings s' k = Some l \<and> Listing.status l = ''Active'' \<longrightarrow>
                  Listing.pricePerItem l \<noteq> 0
                  \<and> (\<exists>l0. listings s k = Some l0 \<and> Listing.status l0 = ''Active''
                           \<and> Listing.collection l0 = Listing.collection l)"
  proof (intro allI impI)
    fix k l
    assume "listings s' k = Some l \<and> Listing.status l = ''Active''"
    then obtain l0 where l0: "listings s k = Some l0" "Listing.status l0 = ''Active''"
        "Listing.collection l0 = Listing.collection l"
        "Listing.pricePerItem l0 = Listing.pricePerItem l"
      using handleItemSold_active [OF wk, of ex e k l] L by auto
    then have "Listing.pricePerItem l0 \<noteq> 0" using li unfolding listingsIndexed_def by blast
    then show "Listing.pricePerItem l \<noteq> 0
                  \<and> (\<exists>l0. listings s k = Some l0 \<and> Listing.status l0 = ''Active''
                           \<and> Listing.collection l0 = Listing.collection l)"
      using l0 by auto
  qed
  have oth: "\<forall>k l0. listings s k = Some l0 \<and> Listing.status l0 = ''Active''
                  \<and> \<not> (k = ?key
                        \<and> Listing.collection l0 = toHexString (ItemSold.nftAddress e)) \<longrightarrow>
                  (\<exists>l. listings s' k = Some l \<and> Listing.status l = ''Active''
                       \<and> Listing.collection l = Listing.collection l0
                       \<and> Listing.pricePerItem l = Listing.pricePerItem l0)"
  proof (intro allI impI)
    fix k l0
    assume a: "listings s k = Some l0 \<and> Listing.status l0 = ''Active''
                  \<and> \<not> (k = ?key
                        \<and> Listing.collection l0 = toHexString (ItemSold.nftAddress e))"
    show "\<exists>l. listings s' k = Some l \<and> Listing.status l = ''Active''
                       \<and> Listing.collection l = Listing.collection l0
                       \<and> Listing.pricePerItem l = Listing.pricePerItem l0"
    proof (cases "k = ?key")
      case True
      then have "Listing.quantity l0 \<noteq> ItemSold.quantity e" using a acc by auto
      then have "listings s' k
          = Some (l0\<lparr>Listing.quantity := Listing.quantity l0 - ItemSold.quantity e\<rparr>)"
        using handleItemSold_key [OF wk, of e l0 ex] a True L by simp
      then show ?thesis using a by simp
    next
      case False
      obtain sel adr tid where "k = getListingId sel adr tid"
        using a li unfolding listingsIndexed_def by blast
      then have "\<And>n. k \<noteq> ?key @ ''-'' @ bigIntToString n"
        using suffixed_key_not_derived by metis
      then have "listings s' k = Some l0"
        using a False handleItemSold_other [OF wk, of k e ex] L by simp
      then show ?thesis using a by simp
    qed
  qed
  show ?thesis
    using recalculation_restores [OF assms(1) s'(2,3) act oth] s'(1) by simp
qed

lemma getOrCreateCollection_id:
  "wellKeyed s \<Longrightarrow> Collection.id (getOrCreateCollection s k) = k"
  by (auto simp: wellKeyed_def getOrCreateCollection_def split: option.splits)

lemma handleItemListed_collections:
  assumes "wellKeyed s"
  shows "\<exists>c'. collections (handleItemListed e s)
            = (collections s)(Token.collection (getOrCreateToken s
                  (getTokenId (ItemListed.nftAddress e) (ItemListed.tokenId e))) \<mapsto> c')
          \<and> listingIds c'
              = listingIds (getOrCreateCollection s (Token.collection (getOrCreateToken s
                  (getTokenId (ItemListed.nftAddress e) (ItemListed.tokenId e)))))
                @ [getListingId (ItemListed.seller e) (ItemListed.nftAddress e)
                     (ItemListed.tokenId e)]
          \<and> Collection.floorPrice c'
              = lowerFloor (Collection.floorPrice (getOrCreateCollection s
                  (Token.collection (getOrCreateToken s
                     (getTokenId (ItemListed.nftAddress e) (ItemListed.tokenId e))))))
                  (ItemListed.pricePerItem e)"
proof -
  let ?cid = "Token.collection (getOrCreateToken s
                  (getTokenId (ItemListed.nftAddress e) (ItemListed.tokenId e)))"
  let ?c = "getOrCreateCollection s ?cid"
  let ?c' = "(if Collection.floorPrice ?c = 0
                \<or> Collection.floorPrice ?c > ItemListed.pricePerItem e
              then ?c\<lparr>Collection.floorPrice := ItemListed.pricePerItem e\<rparr> else ?c)
             \<lparr>listingIds := listingIds ?c @ [getListingId (ItemListed.seller e)
                  (ItemListed.nftAddress e) (ItemListed.tokenId e)],
              totalListings := totalListings ?c + ONE_BI\<rparr>"
  have "collections (handleItemListed e s) = (collections s)(?cid \<mapsto> ?c')"
    using assms
    by (simp add: handleItemListed_def Let_def getOrCreateListing_id getOrCreateCollection_id
        saveListing_def saveCollection_def saveUserToken_def removeUserToken_def saveToken_def)
  then show ?thesis
    by (intro exI [of _ ?c']) (simp add: lowerFloor_def)
qed

lemma handleItemListed_new_listing:
  assumes "wellKeyed s"
  shows "\<exists>l. listings (handleItemListed e s)
            = (listings s)(getListingId (ItemListed.seller e) (ItemListed.nftAddress e)
                 (ItemListed.tokenId e) \<mapsto> l)
          \<and> Listing.status l = ''Active''
          \<and> Listing.pricePerItem l = ItemListed.pricePerItem e
          \<and> Listing.collection l = Token.collection (getOrCreateToken s
                  (getTokenId (ItemListed.nftAddress e) (ItemListed.tokenId e)))"
proof -
  let ?key = "getListingId (ItemListed.seller e) (ItemListed.nftAddress e)
                (ItemListed.tokenId e)"
  have "listings (handleItemListed e s)
          = (listings s)(?key \<mapsto> the (listings (handleItemListed e s) ?key))"
    using assms
    by (simp add: handleItemListed_def Let_def getOrCreateListing_id saveListing_def
        saveCollection_def saveUserToken_def removeUserToken_def saveToken_def)
  moreover have "Listing.status (the (listings (handleItemListed e s) ?key)) = ''Active''"
      "Listing.pricePerItem (the (listings (handleItemListed e s) ?key))
         = ItemListed.pricePerItem e"
      "Listing.collection (the (listings (handleItemListed e s) ?key))
         = Token.collection (getOrCreateToken s
                  (getTokenId (ItemListed.nftAddress e) (ItemListed.tokenId e)))"
    using assms
    by (simp_all add: handleItemListed_def Let_def getOrCreateListing_id saveListing_def
        saveCollection_def saveUserToken_def removeUserToken_def saveToken_def)
  ultimately show ?thesis by blast
qed

lemma lowerFloor_floorOf:
  assumes "0 \<notin> set ps" and "p \<noteq> 0"
  shows "lowerFloor (if ps = [] then 0 else Min (set ps)) p = Min (set (ps @ [p]))"
proof (cases "ps = []")
  case True
  then show ?thesis by (simp add: lowerFloor_def)
next
  case False
  then have "Min (set ps) \<in> set ps" by (intro Min_in) simp_all
  then have nz: "Min (set ps) \<noteq> 0" using assms(1) by metis
  define f where "f = Min (set ps)"
  have "Min (set (ps @ [p])) = min p f" using False by (simp add: f_def)
  moreover have "lowerFloor f p = min p f" using nz by (auto simp: lowerFloor_def f_def)
  ultimately show ?thesis using False by (simp add: f_def)
qed

lemma floorInvariant_handleItemListed:
  assumes inv: "floorInvariant s" and acc: "accepts s (Listed e)"
  shows "floorInvariant (handleItemListed e s)"
proof -
  let ?key = "getListingId (ItemListed.seller e) (ItemListed.nftAddress e)
                (ItemListed.tokenId e)"
  let ?cid = "Token.collection (getOrCreateToken s (getTokenId (ItemListed.nftAddress e)
                (ItemListed.tokenId e)))"
  let ?t = "handleItemListed e s"
  let ?c = "getOrCreateCollection s ?cid"
  have wk: "wellKeyed s" and li: "listingsIndexed s" and ie: "indexesExact s"
    using inv by (simp_all add: floorInvariant_def)
  have price: "ItemListed.pricePerItem e \<noteq> 0" and fresh: "\<not> alive s ?key"
    using acc by simp_all
  obtain c' where c': "collections ?t = (collections s)(?cid \<mapsto> c')"
      "listingIds c' = listingIds ?c @ [?key]"
      "Collection.floorPrice c' = lowerFloor (Collection.floorPrice ?c) (ItemListed.pricePerItem e)"
    using handleItemListed_collections [OF wk, of e] by auto
  obtain n where n: "listings ?t = (listings s)(?key \<mapsto> n)" "Listing.status n = ''Active''"
      "Listing.pricePerItem n = ItemListed.pricePerItem e" "Listing.collection n = ?cid"
    using handleItemListed_new_listing [OF wk, of e] by auto
  have cprops: "distinct (listingIds ?c)
        \<and> (\<forall>k\<in>set (listingIds ?c).
              \<exists>l. listings s k = Some l \<and> Listing.status l = ''Active''
                  \<and> Listing.collection l = ?cid)
        \<and> Collection.floorPrice ?c = floorOf s (listingIds ?c)"
  proof (cases "collections s ?cid")
    case None
    then show ?thesis
      by (simp add: getOrCreateCollection_def ZERO_BI_def floorOf_def activePrices_def)
  next
    case (Some c0)
    then show ?thesis using ie unfolding indexesExact_def
      by (simp add: getOrCreateCollection_def)
  qed
  have notin: "?key \<notin> set (listingIds c)"
    if pc: "collections s cid = Some c" for cid c
    using ie pc fresh unfolding indexesExact_def alive_def by blast
  have notin': "?key \<notin> set (listingIds ?c)"
    using cprops fresh unfolding alive_def by blast
  have same: "\<forall>k\<in>set ks. listings ?t k = listings s k" if "?key \<notin> set ks" for ks
    using that n(1) by auto
  have nzs: "0 \<notin> set (activePrices s ks)" for ks
    using li unfolding listingsIndexed_def by (intro no_zero_price) blast
  have indexed: "listingsIndexed ?t"
    unfolding listingsIndexed_def
  proof (intro allI impI)
    fix k l
    assume kl: "listings ?t k = Some l \<and> Listing.status l = ''Active''"
    show "Listing.pricePerItem l \<noteq> 0
        \<and> (\<exists>sel adr tid. k = getListingId sel adr tid)
        \<and> (\<exists>c. collections ?t (Listing.collection l) = Some c \<and> k \<in> set (listingIds c))"
    proof (cases "k = ?key")
      case True
      then have "l = n" using kl n(1) by simp
      then show ?thesis using True n price c' by auto
    next
      case False
      then have old: "listings s k = Some l" "Listing.status l = ''Active''"
        using kl n(1) by simp_all
      then obtain c0 where c0: "collections s (Listing.collection l) = Some c0"
          "k \<in> set (listingIds c0)"
        using li unfolding listingsIndexed_def by blast
      have "\<exists>c. collections ?t (Listing.collection l) = Some c \<and> k \<in> set (listingIds c)"
      proof (cases "Listing.collection l = ?cid")
        case True
        then have "?c = c0" using c0 by (simp add: getOrCreateCollection_def)
        then show ?thesis using True c0 c' by simp
      next
        case False
        then show ?thesis using c0 c' by simp
      qed
      then show ?thesis using li old unfolding listingsIndexed_def by blast
    qed
  qed
  have exact: "indexesExact ?t"
    unfolding indexesExact_def
  proof (intro allI impI)
    fix cid d
    assume d: "collections ?t cid = Some d"
    show "distinct (listingIds d)
        \<and> (\<forall>k\<in>set (listingIds d).
              \<exists>l. listings ?t k = Some l \<and> Listing.status l = ''Active''
                  \<and> Listing.collection l = cid)
        \<and> Collection.floorPrice d = floorOf ?t (listingIds d)"
    proof (cases "cid = ?cid")
      case True
      then have dc: "d = c'" using d c'(1) by simp
      have one: "distinct (listingIds c')" using cprops notin' c'(2) by simp
      have two: "\<forall>k\<in>set (listingIds c').
              \<exists>l. listings ?t k = Some l \<and> Listing.status l = ''Active''
                  \<and> Listing.collection l = ?cid"
        using cprops notin' c'(2) n by auto
      have a1: "activePrices ?t (listingIds ?c) = activePrices s (listingIds ?c)"
        using same [OF notin'] by (rule activePrices_same)
      have a2: "activePrices ?t [?key] = [ItemListed.pricePerItem e]"
        using n by (simp add: activePrices_def)
      have "activePrices ?t (listingIds c') = activePrices s (listingIds ?c)
              @ [ItemListed.pricePerItem e]"
        by (simp only: c'(2) activePrices_append a1 a2)
      then have "floorOf ?t (listingIds c')
                   = Min (set (activePrices s (listingIds ?c) @ [ItemListed.pricePerItem e]))"
        by (simp add: floorOf_def)
      also have "\<dots> = lowerFloor (floorOf s (listingIds ?c)) (ItemListed.pricePerItem e)"
        using lowerFloor_floorOf [OF nzs price, of "listingIds ?c"] by (simp add: floorOf_def)
      finally have three: "Collection.floorPrice c' = floorOf ?t (listingIds c')"
        using c'(3) cprops by simp
      show ?thesis using dc True one two three by simp
    next
      case False
      then have ds: "collections s cid = Some d" using d c'(1) by simp
      have props: "distinct (listingIds d)"
          "\<forall>k\<in>set (listingIds d).
              \<exists>l. listings s k = Some l \<and> Listing.status l = ''Active''
                  \<and> Listing.collection l = cid"
          "Collection.floorPrice d = floorOf s (listingIds d)"
        using ie ds unfolding indexesExact_def by blast+
      have sm: "\<forall>k\<in>set (listingIds d). listings ?t k = listings s k"
        using same [OF notin [OF ds]] .
      have "floorOf ?t (listingIds d) = floorOf s (listingIds d)"
        using sm by (rule floorOf_same)
      then show ?thesis using props sm by simp
    qed
  qed
  show ?thesis
    using wellKeyed_handleItemListed [OF wk] indexed exact by (simp add: floorInvariant_def)
qed

lemma floorInvariant_emptyStore: "floorInvariant emptyStore"
  using wellKeyed_emptyStore
  by (simp add: floorInvariant_def listingsIndexed_def indexesExact_def emptyStore_def)

lemma floorInvariant_processEvents:
  "floorInvariant s \<Longrightarrow> admissible ex es s \<Longrightarrow> floorInvariant (processEvents ex es s)"
proof (induction es arbitrary: s)
  case Nil
  then show ?case by simp
next
  case (Cons e es)
  have "floorInvariant (handleEvent ex e s)"
  proof (cases e)
    case (Listed x)
    then show ?thesis using Cons.prems by (simp add: floorInvariant_handleItemListed)
  next
    case (Updated x)
    then show ?thesis using Cons.prems by (simp add: floorInvariant_handleItemUpdated)
  next
    case (Canceled x)
    then show ?thesis using Cons.prems by (simp add: floorInvariant_handleItemCanceled)
  next
    case (Sold x)
    then show ?thesis using Cons.prems by (simp add: floorInvariant_handleItemSold)
  qed
  then show ?case using Cons.IH Cons.prems by simp
qed

lemma listing_pair_floor:
  "map_option Collection.floorPrice
     (collections (handleItemListed (bobListed 1 7 101) afterListing) '''') = Some 7"
  by (simp add: handleItemListed_def bobListed_def run_defs eval_defs example_defs)

lemma wired_cancel_floor:
  "map_option Collection.floorPrice
     (collections (handleItemCanceled aliceCanceled wiredListedTwice) (toHexString nft)) = Some 9"
  by (simp add: handleItemCanceled_def aliceCanceled_def run_defs eval_defs example_defs)

lemma wired_update_floor:
  "map_option Collection.floorPrice
     (collections (handleItemUpdated (aliceUpdated 5 12 200) wiredListedTwice) (toHexString nft))
   = Some 9"
  by (simp add: handleItemUpdated_def aliceUpdated_def run_defs eval_defs example_defs)

lemma wired_sale_floor:
  "map_option Collection.floorPrice
     (collections (handleItemSold explorer (aliceSold 5 200 3) wiredListedTwice) (toHexString nft))
   = Some 9"
  by (simp add: handleItemSold_def aliceSold_def run_defs eval_defs example_defs)

lemma floorInvariant_wiredStore: "floorInvariant wiredStore"
  by (simp add: floorInvariant_def wellKeyed_def listingsIndexed_def indexesExact_def
      wiredStore_def emptyStore_def)

lemma accepts_first_listing: "accepts emptyStore (Listed (aliceListed 5 9 100))"
  by (simp add: aliceListed_fields alive_def emptyStore_def)

lemma accepts_second_listing: "accepts afterListing (Listed (bobListed 1 7 101))"
  by (simp add: bobListed_fields alive_def afterListing_def example_defs)

lemma accepts_wired_listings:
  "accepts wiredStore (Listed (aliceListed 5 7 100))"
  "accepts wiredListed (Listed (bobListed 1 9 101))"
  by (simp_all add: aliceListed_fields bobListed_fields alive_def wiredListed_def wiredStore_def
      emptyStore_def example_defs)

lemma accepts_wired_events:
  "accepts wiredListedTwice (Canceled aliceCanceled)"
  "accepts wiredListedTwice (Updated (aliceUpdated 5 12 200))"
  "accepts wiredListedTwice (Sold (aliceSold 5 200 3))"
  by (simp_all add: aliceCanceled_fields aliceUpdated_fields aliceSold_fields wiredListedTwice_def
      activeListing_def wiredStore_def emptyStore_def example_defs)

text \<open>
  C1, amended.  From the empty store, or from any store that satisfies the floor invariant,
  after any finite sequence of list, update, cancel and sell events in which every listing
  has a nonzero price and finds no Active listing under its key, every update has a nonzero
  price, and every update that changes the price of an Active listing, every cancellation
  of an Active listing and every sale of the whole quantity of an Active listing finds that
  listing referring to the collection stored under the address of the event's contract, the
  floor of every stored collection is the least price of the stored Active listings that
  refer to it, or zero if there is none.
\<close>

theorem floor_correct_on_admissible_events:
  assumes "floorInvariant s" and "admissible ex es s"
  shows "floorCorrect (processEvents ex es s)"
  using assms by (intro floorInvariant_floorCorrect floorInvariant_processEvents)

theorem floor_correct_on_admissible_events_witness:
  "floorInvariant emptyStore
   \<and> admissible explorer [Listed (aliceListed 5 9 100), Listed (bobListed 1 7 101)] emptyStore
   \<and> floorCorrect
        (processEvents explorer [Listed (aliceListed 5 9 100), Listed (bobListed 1 7 101)]
           emptyStore)
   \<and> map_option Collection.floorPrice
        (collections
           (processEvents explorer [Listed (aliceListed 5 9 100), Listed (bobListed 1 7 101)]
              emptyStore) '''') = Some 7
   \<and> floorInvariant wiredStore
   \<and> admissible explorer
        [Listed (aliceListed 5 7 100), Listed (bobListed 1 9 101), Canceled aliceCanceled]
        wiredStore
   \<and> floorCorrect
        (processEvents explorer
           [Listed (aliceListed 5 7 100), Listed (bobListed 1 9 101), Canceled aliceCanceled]
           wiredStore)
   \<and> map_option Collection.floorPrice
        (collections
           (processEvents explorer
              [Listed (aliceListed 5 7 100), Listed (bobListed 1 9 101), Canceled aliceCanceled]
              wiredStore) (toHexString nft)) = Some 9
   \<and> admissible explorer
        [Listed (aliceListed 5 7 100), Listed (bobListed 1 9 101),
         Updated (aliceUpdated 5 12 200)] wiredStore
   \<and> floorCorrect
        (processEvents explorer
           [Listed (aliceListed 5 7 100), Listed (bobListed 1 9 101),
            Updated (aliceUpdated 5 12 200)] wiredStore)
   \<and> map_option Collection.floorPrice
        (collections
           (processEvents explorer
              [Listed (aliceListed 5 7 100), Listed (bobListed 1 9 101),
               Updated (aliceUpdated 5 12 200)] wiredStore) (toHexString nft)) = Some 9
   \<and> admissible explorer
        [Listed (aliceListed 5 7 100), Listed (bobListed 1 9 101), Sold (aliceSold 5 200 3)]
        wiredStore
   \<and> floorCorrect
        (processEvents explorer
           [Listed (aliceListed 5 7 100), Listed (bobListed 1 9 101), Sold (aliceSold 5 200 3)]
           wiredStore)
   \<and> map_option Collection.floorPrice
        (collections
           (processEvents explorer
              [Listed (aliceListed 5 7 100), Listed (bobListed 1 9 101),
               Sold (aliceSold 5 200 3)] wiredStore) (toHexString nft)) = Some 9"
proof -
  have pair: "admissible explorer [Listed (aliceListed 5 9 100), Listed (bobListed 1 7 101)]
        emptyStore"
    using accepts_first_listing accepts_second_listing by (simp add: first_listing)
  have cancel: "admissible explorer
        [Listed (aliceListed 5 7 100), Listed (bobListed 1 9 101), Canceled aliceCanceled]
        wiredStore"
    using accepts_wired_listings accepts_wired_events
    by (simp add: wired_first_listing wired_second_listing)
  have update: "admissible explorer
        [Listed (aliceListed 5 7 100), Listed (bobListed 1 9 101),
         Updated (aliceUpdated 5 12 200)] wiredStore"
    using accepts_wired_listings accepts_wired_events
    by (simp add: wired_first_listing wired_second_listing)
  have sale: "admissible explorer
        [Listed (aliceListed 5 7 100), Listed (bobListed 1 9 101), Sold (aliceSold 5 200 3)]
        wiredStore"
    using accepts_wired_listings accepts_wired_events
    by (simp add: wired_first_listing wired_second_listing)
  have floors:
    "map_option Collection.floorPrice
        (collections
           (processEvents explorer [Listed (aliceListed 5 9 100), Listed (bobListed 1 7 101)]
              emptyStore) '''') = Some 7"
    "map_option Collection.floorPrice
        (collections
           (processEvents explorer
              [Listed (aliceListed 5 7 100), Listed (bobListed 1 9 101), Canceled aliceCanceled]
              wiredStore) (toHexString nft)) = Some 9"
    "map_option Collection.floorPrice
        (collections
           (processEvents explorer
              [Listed (aliceListed 5 7 100), Listed (bobListed 1 9 101),
               Updated (aliceUpdated 5 12 200)] wiredStore) (toHexString nft)) = Some 9"
    "map_option Collection.floorPrice
        (collections
           (processEvents explorer
              [Listed (aliceListed 5 7 100), Listed (bobListed 1 9 101),
               Sold (aliceSold 5 200 3)] wiredStore) (toHexString nft)) = Some 9"
    by (simp_all add: first_listing wired_first_listing wired_second_listing listing_pair_floor
        wired_cancel_floor wired_update_floor wired_sale_floor)
  show ?thesis
    using floor_correct_on_admissible_events [OF floorInvariant_emptyStore pair]
      floor_correct_on_admissible_events [OF floorInvariant_wiredStore cancel]
      floor_correct_on_admissible_events [OF floorInvariant_wiredStore update]
      floor_correct_on_admissible_events [OF floorInvariant_wiredStore sale]
      floorInvariant_emptyStore floorInvariant_wiredStore pair cancel update sale floors
    by (intro conjI)
qed

end
